theory Spec2Isabelle
  imports Complex_Main "HOL-Library.Multiset"
begin

section \<open>Data model (types.ts)\<close>

text \<open>
  A JavaScript \<^verbatim>\<open>Date\<close> object holds a time value: an integral number of milliseconds
  since the epoch, or NaN (an "Invalid Date").  \<^verbatim>\<open>getTime()\<close> reads it.
\<close>

datatype js_date = Date int | InvalidDate

datatype js_number = Num int | NaN

fun getTime :: "js_date \<Rightarrow> js_number" where
  "getTime (Date t) = Num t"
| "getTime InvalidDate = NaN"

text \<open>
  Coordinates are JavaScript numbers; they are modelled as reals (rounding of IEEE doubles
  is not modelled).  An altitude is the result of \<^verbatim>\<open>Number(...)\<close> on what the EXIF reader
  gave, and so a number or NaN (infinite values are not modelled).  An optional field is an
  \<open>option\<close>.
\<close>

datatype js_float = Finite real | NotANumber

record GPSLocation =
  lat :: real
  lng :: real
  alt :: "js_float option"
  timestamp :: "js_date option"

record CameraMetadata =
  make_camera :: "string option"
  model :: "string option"
  exposureTime :: "string option"
  fNumber :: "string option"
  iso :: "string option"
  focalLength :: "string option"
  lens :: "string option"

record TrekPhoto =
  id_photo :: string
  name :: string
  url :: string
  base64 :: string
  location :: "GPSLocation option"
  camera :: "CameraMetadata option"
  mimeType :: string

section \<open>Time ordering (App: sortedPhotos, stats; Map: runPlayback)\<close>

text \<open>
  \<^verbatim>\<open>Array.prototype.sort(cmp)\<close> is a stable sort; for a comparator that is a difference of
  keys its result is determined, and is computed here by stable insertion from the right.
\<close>

fun insert_by :: "('a \<Rightarrow> 'a \<Rightarrow> int) \<Rightarrow> 'a \<Rightarrow> 'a list \<Rightarrow> 'a list" where
  "insert_by cmp x [] = [x]"
| "insert_by cmp x (y # ys) =
     (if cmp x y \<le> 0 then x # y # ys else y # insert_by cmp x ys)"

definition array_sort :: "('a \<Rightarrow> 'a \<Rightarrow> int) \<Rightarrow> 'a list \<Rightarrow> 'a list" where
  "array_sort cmp xs = foldr (insert_by cmp) xs []"

text \<open>
  \<^verbatim>\<open>x || 0\<close> on the result of \<^verbatim>\<open>a.location?.timestamp?.getTime()\<close>: undefined, NaN and 0
  are falsy and give 0.
\<close>

fun or_zero :: "js_number option \<Rightarrow> int" where
  "or_zero None = 0"
| "or_zero (Some NaN) = 0"
| "or_zero (Some (Num t)) = (if t = 0 then 0 else t)"

definition timeKey :: "TrekPhoto \<Rightarrow> int" where
  "timeKey p =
     or_zero (case location p of
                None \<Rightarrow> None
              | Some l \<Rightarrow> (case timestamp l of None \<Rightarrow> None | Some d \<Rightarrow> Some (getTime d)))"

definition compareTime :: "TrekPhoto \<Rightarrow> TrekPhoto \<Rightarrow> int" where
  "compareTime a b = timeKey a - timeKey b"

definition hasLocation :: "TrekPhoto \<Rightarrow> bool" where
  "hasLocation p = (location p \<noteq> None)"

text \<open>\<^verbatim>\<open>sortedPhotos\<close>: every photo, sorted; photos without a location have key 0.\<close>

definition sortedPhotos :: "TrekPhoto list \<Rightarrow> TrekPhoto list" where
  "sortedPhotos photos = array_sort compareTime photos"

text \<open>\<^verbatim>\<open>gpsPhotos\<close> of \<^verbatim>\<open>stats\<close>, \<^verbatim>\<open>validPhotos\<close> of \<^verbatim>\<open>runPlayback\<close>: filter, then sort.\<close>

definition gpsPhotos :: "TrekPhoto list \<Rightarrow> TrekPhoto list" where
  "gpsPhotos photos = array_sort compareTime (filter hasLocation photos)"

section \<open>Trek statistics (App: stats)\<close>

text \<open>
  \<^verbatim>\<open>Math.atan2(y, x)\<close> on reals (signed zeros are not modelled; \<^verbatim>\<open>atan2(0, 0)\<close> is 0).
\<close>

definition atan2 :: "real \<Rightarrow> real \<Rightarrow> real" where
  "atan2 y x =
     (if 0 < x then arctan (y / x)
      else if x < 0 then (if 0 \<le> y then arctan (y / x) + pi else arctan (y / x) - pi)
      else if 0 < y then pi / 2
      else if y < 0 then - (pi / 2)
      else 0)"

text \<open>The body of the distance loop for one pair \<^verbatim>\<open>p1\<close>, \<^verbatim>\<open>p2\<close>.\<close>

definition segmentKm :: "GPSLocation \<Rightarrow> GPSLocation \<Rightarrow> real" where
  "segmentKm p1 p2 =
     (let R = 6371;
          dLat = (lat p2 - lat p1) * pi / 180;
          dLon = (lng p2 - lng p1) * pi / 180;
          a = (sin (dLat / 2))\<^sup>2
              + cos (lat p1 * pi / 180) * cos (lat p2 * pi / 180) * (sin (dLon / 2))\<^sup>2
      in R * (2 * atan2 (sqrt a) (sqrt (1 - a))))"

text \<open>
  \<^verbatim>\<open>maxA = Math.max(maxA, x)\<close>, with \<^verbatim>\<open>-Infinity\<close> as \<open>None\<close>; the maximum is NaN as soon
  as one argument is.
\<close>

fun mathMax :: "js_float option \<Rightarrow> js_float \<Rightarrow> js_float option" where
  "mathMax None x = Some x"
| "mathMax (Some (Finite m)) (Finite x) = Some (Finite (max m x))"
| "mathMax (Some (Finite m)) NotANumber = Some NotANumber"
| "mathMax (Some NotANumber) x = Some NotANumber"

definition updMaxA :: "js_float option \<Rightarrow> GPSLocation \<Rightarrow> js_float option" where
  "updMaxA maxA p = (case alt p of None \<Rightarrow> maxA | Some x \<Rightarrow> mathMax maxA x)"

text \<open>
  The \<^verbatim>\<open>for (let i = 0; i < gpsPhotos.length - 1; i++)\<close> loop over the locations of
  \<^verbatim>\<open>gpsPhotos\<close>; the state is \<^verbatim>\<open>(dist, maxA)\<close> (\<open>dist\<close> is written \<open>distKm\<close>).
\<close>

function stats_loop ::
  "GPSLocation list \<Rightarrow> nat \<Rightarrow> real \<times> js_float option \<Rightarrow> real \<times> js_float option" where
  "stats_loop g i (distKm, maxA) =
     (if i < length g - 1
      then stats_loop g (i + 1) (distKm + segmentKm (g ! i) (g ! (i + 1)), updMaxA maxA (g ! i))
      else (distKm, maxA))"
  by pat_completeness auto
termination
  by (relation "measure (\<lambda>(g, i, s). length g - 1 - i)") auto

declare stats_loop.simps [simp del]

text \<open>
  \<^verbatim>\<open>x.toFixed(2)\<close>: the decimal with two fraction digits nearest to \<open>x\<close> (the larger one on
  a tie, the sign treated apart); the model keeps the number that the string denotes.
\<close>

definition toFixed2 :: "real \<Rightarrow> real" where
  "toFixed2 x =
     (if x < 0 then - (of_int \<lfloor>- x * 100 + 1 / 2\<rfloor> / 100)
      else of_int \<lfloor>x * 100 + 1 / 2\<rfloor> / 100)"

text \<open>\<^verbatim>\<open>Math.round\<close> rounds to the nearest integer, a tie going up.\<close>

definition mathRound :: "real \<Rightarrow> int" where
  "mathRound x = \<lfloor>x + 1 / 2\<rfloor>"

text \<open>\<^verbatim>\<open>Math.round(maxA)\<close>\<close>

fun roundMaxA :: "js_float \<Rightarrow> js_number" where
  "roundMaxA (Finite x) = Num (mathRound x)"
| "roundMaxA NotANumber = NaN"

text \<open>\<^verbatim>\<open>Math.round((last.getTime() - first.getTime()) / 60000)\<close>; NaN propagates.\<close>

fun durationMinutes :: "js_date \<Rightarrow> js_date \<Rightarrow> js_number" where
  "durationMinutes (Date t0) (Date t1) = Num (mathRound (of_int (t1 - t0) / 60000))"
| "durationMinutes _ _ = NaN"

record TrekStats =
  distance :: real
  maxAlt :: "js_number option"
  duration :: "js_number option"

definition stats :: "TrekPhoto list \<Rightarrow> TrekStats option" where
  "stats photos =
     (let g = map (the \<circ> location) (gpsPhotos photos) in
      if length g < 2 then None
      else
        (let (distKm, maxA0) = stats_loop g 0 (0, None);
             last = g ! (length g - 1);
             maxA = updMaxA maxA0 last
         in Some \<lparr> distance = toFixed2 distKm,
                   maxAlt = map_option roundMaxA maxA,
                   duration =
                     (case (timestamp (g ! 0), timestamp last) of
                        (Some d0, Some d1) \<Rightarrow> Some (durationMinutes d0 d1)
                      | _ \<Rightarrow> None) \<rparr>))"

section \<open>The runtime and its libraries\<close>

text \<open>
  What the program calls but does not define is a parameter: the EXIF reader, the HEIC
  converter, \<^verbatim>\<open>FileReader\<close>, \<^verbatim>\<open>URL.createObjectURL\<close>, the \<^verbatim>\<open>Date\<close> constructor on strings,
  the conversion of a text to a number, number and date formatting.  A rejected promise or
  a thrown exception is \<open>Inl\<close>.
\<close>

datatype js_error = RangeError | TypeError | Failure string

type_synonym blob = string

record File =
  file_name :: string
  file_type :: string
  file_blob :: blob

text \<open>
  A value of JavaScript as far as the program meets one in a tag: a number or a text.
\<close>

datatype js_value = NumberValue js_float | StringValue string

text \<open>
  The tags the program reads, each by its \<^verbatim>\<open>description\<close>; \<open>None\<close> is a missing tag or a
  missing description.  The descriptions of the latitude and the longitude are the decimal
  degrees that the reader computes, numbers.  The description of the altitude is whatever
  the reader gives, a number or a text (the reader writes an altitude with its unit, as in
  \<open>0 m\<close>): the cast \<^verbatim>\<open>as unknown as number\<close> of the source converts nothing.
\<close>

record ExifTags =
  GPSLatitude :: "real option"
  GPSLongitude :: "real option"
  GPSAltitude :: "js_value option"
  DateTimeOriginal :: "string option"
  Make :: "string option"
  Model :: "string option"
  ExposureTime :: "string option"
  FNumber :: "string option"
  ISOSpeedRatings :: "string option"
  FocalLength :: "string option"
  LensModel :: "string option"
  Lens :: "string option"

datatype heic_output = OneBlob blob | ManyBlobs "blob list"

record runtime =
  ExifReader_load :: "File \<Rightarrow> js_error + ExifTags"
  heic2any :: "File \<Rightarrow> js_error + heic_output"
  readAsDataURL :: "blob \<Rightarrow> js_error + string"
  createObjectURL :: "blob \<Rightarrow> string"
  newDate :: "string \<Rightarrow> js_date"
  stringToNumber :: "string \<Rightarrow> js_float"
  numberToString :: "real \<Rightarrow> string"
  toISOString :: "int \<Rightarrow> string"
  toLocaleDateString_now :: string

section \<open>Metadata extraction (exifService: extractGpsData, extractCameraMetadata, fileToBase64)\<close>

definition isDigit :: "char \<Rightarrow> bool" where
  "isDigit c = (48 \<le> (of_char c :: nat) \<and> (of_char c :: nat) \<le> 57)"

text \<open>\<^verbatim>\<open>s.replace(/^(\d{4}):(\d{2}):(\d{2})/, '$1-$2-$3')\<close>\<close>

fun normalizeExifDate :: "string \<Rightarrow> string" where
  "normalizeExifDate (y1 # y2 # y3 # y4 # c1 # m1 # m2 # c2 # d1 # d2 # rest) =
     (if isDigit y1 \<and> isDigit y2 \<and> isDigit y3 \<and> isDigit y4 \<and> c1 = CHR '':''
         \<and> isDigit m1 \<and> isDigit m2 \<and> c2 = CHR '':'' \<and> isDigit d1 \<and> isDigit d2
      then y1 # y2 # y3 # y4 # CHR ''-'' # m1 # m2 # CHR ''-'' # d1 # d2 # rest
      else y1 # y2 # y3 # y4 # c1 # m1 # m2 # c2 # d1 # d2 # rest)"
| "normalizeExifDate s = s"

text \<open>
  The date of \<^verbatim>\<open>extractGpsData\<close>: set only under \<^verbatim>\<open>if (tags.DateTimeOriginal)\<close> and
  \<^verbatim>\<open>if (dateStr)\<close> (the empty string is falsy), and then to whatever \<^verbatim>\<open>new Date(dateStr)\<close> is.
\<close>

definition extractDate :: "runtime \<Rightarrow> ExifTags \<Rightarrow> js_date option" where
  "extractDate E tags =
     (case DateTimeOriginal tags of
        None \<Rightarrow> None
      | Some description \<Rightarrow>
          (let dateStr = normalizeExifDate description in
           if dateStr \<noteq> [] then Some (newDate E dateStr) else None))"

text \<open>The truth value of a value: the numbers 0 and NaN and the empty text are falsy.\<close>

fun truthy :: "js_value \<Rightarrow> bool" where
  "truthy (NumberValue (Finite x)) = (x \<noteq> 0)"
| "truthy (NumberValue NotANumber) = False"
| "truthy (StringValue s) = (s \<noteq> [])"

text \<open>\<^verbatim>\<open>Number(v)\<close>: a number is itself, a text is converted by the runtime.\<close>

fun toNumber :: "runtime \<Rightarrow> js_value \<Rightarrow> js_float" where
  "toNumber E (NumberValue x) = x"
| "toNumber E (StringValue s) = stringToNumber E s"

text \<open>
  \<^verbatim>\<open>alt ? Number(alt) : undefined\<close>, where \<^verbatim>\<open>alt\<close> is the description of the altitude tag
  as the reader gave it.
\<close>

definition extractAlt :: "runtime \<Rightarrow> ExifTags \<Rightarrow> js_float option" where
  "extractAlt E tags =
     (case GPSAltitude tags of
        None \<Rightarrow> None
      | Some a \<Rightarrow> (if truthy a then Some (toNumber E a) else None))"

text \<open>The \<^verbatim>\<open>try\<close> block catches a failed load; the function then returns \<^verbatim>\<open>undefined\<close>.\<close>

definition extractGpsData :: "runtime \<Rightarrow> File \<Rightarrow> GPSLocation option" where
  "extractGpsData E file =
     (case ExifReader_load E file of
        Inl error \<Rightarrow> None
      | Inr tags \<Rightarrow>
          (case (GPSLatitude tags, GPSLongitude tags) of
             (Some la, Some lo) \<Rightarrow>
               Some \<lparr> lat = la, lng = lo, alt = extractAlt E tags, timestamp = extractDate E tags \<rparr>
           | _ \<Rightarrow> None))"

text \<open>\<^verbatim>\<open>a || b\<close> on optional strings: undefined and the empty string are falsy.\<close>

fun or_string :: "string option \<Rightarrow> string option \<Rightarrow> string option" where
  "or_string None b = b"
| "or_string (Some s) b = (if s = [] then b else Some s)"

definition emptyCamera :: CameraMetadata where
  "emptyCamera = \<lparr> make_camera = None, model = None, exposureTime = None, fNumber = None,
                   iso = None, focalLength = None, lens = None \<rparr>"

definition extractCameraMetadata :: "runtime \<Rightarrow> File \<Rightarrow> CameraMetadata" where
  "extractCameraMetadata E file =
     (case ExifReader_load E file of
        Inl error \<Rightarrow> emptyCamera
      | Inr tags \<Rightarrow>
          \<lparr> make_camera = Make tags, model = Model tags, exposureTime = ExposureTime tags,
            fNumber = FNumber tags, iso = ISOSpeedRatings tags, focalLength = FocalLength tags,
            lens = or_string (LensModel tags) (Lens tags) \<rparr>)"

text \<open>\<^verbatim>\<open>s.split(',')[1] || ''\<close>\<close>

definition splitComma1 :: "string \<Rightarrow> string" where
  "splitComma1 s =
     (case dropWhile (\<lambda>c. c \<noteq> CHR '','') s of
        [] \<Rightarrow> []
      | comma # rest \<Rightarrow> takeWhile (\<lambda>c. c \<noteq> CHR '','') rest)"

text \<open>
  \<^verbatim>\<open>fileToBase64\<close>; its argument is \<open>None\<close> when \<^verbatim>\<open>displayBlob[0]\<close> of an empty array is
  undefined, and \<^verbatim>\<open>readAsDataURL\<close> then throws in the promise executor.
\<close>

definition fileToBase64 :: "runtime \<Rightarrow> blob option \<Rightarrow> js_error + string" where
  "fileToBase64 E b =
     (case b of
        None \<Rightarrow> Inl TypeError
      | Some bytes \<Rightarrow>
          (case readAsDataURL E bytes of
             Inl error \<Rightarrow> Inl error
           | Inr result \<Rightarrow> Inr (splitComma1 result)))"

section \<open>Session state\<close>

text \<open>
  The state of \<^verbatim>\<open>App\<close> (\<open>photos\<close> to \<open>isConverting\<close>) and of \<^verbatim>\<open>Map\<close> (\<open>isPlaying\<close>,
  \<open>playbackRef\<close>), with what the environment holds for them: the pending
  \<^verbatim>\<open>setTimeout\<close> callbacks of suspended playback loops (wake-up time in ms and the
  waypoints the loop has still to visit), the clock, the log of
  \<^verbatim>\<open>URL.revokeObjectURL\<close> calls and the log of \<^verbatim>\<open>onPhotoSelect\<close> calls made by playback.
\<close>

record Session =
  photos :: "TrekPhoto list"
  activePhotoId :: "string option"
  isGalleryOpen :: bool
  galleryIndex :: nat
  isConverting :: bool
  isPlaying :: bool
  playbackRef :: "nat option"
  timers :: "(nat \<times> TrekPhoto list) list"
  clock :: nat
  revoked :: "string list"
  selected :: "(nat \<times> string) list"

definition initialSession :: Session where
  "initialSession =
     \<lparr> photos = [], activePhotoId = None, isGalleryOpen = False, galleryIndex = 0,
       isConverting = False, isPlaying = False, playbackRef = None, timers = [],
       clock = 0, revoked = [], selected = [] \<rparr>"

section \<open>Ingestion (App: processFiles)\<close>

definition toLowerChar :: "char \<Rightarrow> char" where
  "toLowerChar c =
     (if 65 \<le> (of_char c :: nat) \<and> (of_char c :: nat) \<le> 90
      then char_of ((of_char c :: nat) + 32) else c)"

definition toLowerCase :: "string \<Rightarrow> string" where
  "toLowerCase s = map toLowerChar s"

definition endsWith :: "string \<Rightarrow> string \<Rightarrow> bool" where
  "endsWith s suffix =
     (length suffix \<le> length s \<and> drop (length s - length suffix) s = suffix)"

definition substr :: "nat \<Rightarrow> nat \<Rightarrow> string \<Rightarrow> string" where
  "substr start len s = take len (drop start s)"

definition isHeic :: "File \<Rightarrow> bool" where
  "isHeic file =
     (endsWith (toLowerCase (file_name file)) ''.heic''
      \<or> endsWith (toLowerCase (file_name file)) ''.heif'')"

text \<open>\<^verbatim>\<open>Array.isArray(displayBlob) ? displayBlob[0] : displayBlob\<close>\<close>

fun finalBlob :: "heic_output \<Rightarrow> blob option" where
  "finalBlob (OneBlob b) = Some b"
| "finalBlob (ManyBlobs []) = None"
| "finalBlob (ManyBlobs (b # bs)) = Some b"

text \<open>
  The \<^verbatim>\<open>try\<close> block of the per-file function.  The two extractors never reject; the
  converter and the encoder may.  \<open>rnd\<close> is \<^verbatim>\<open>Math.random().toString(36)\<close>.
\<close>

definition processFile_try :: "runtime \<Rightarrow> string \<Rightarrow> File \<Rightarrow> js_error + TrekPhoto" where
  "processFile_try E rnd file =
     (let loc = extractGpsData E file;
          cam = extractCameraMetadata E file
      in case (if isHeic file then heic2any E file else Inr (OneBlob (file_blob file))) of
           Inl error \<Rightarrow> Inl error
         | Inr displayBlob \<Rightarrow>
             (case fileToBase64 E (finalBlob displayBlob) of
                Inl error \<Rightarrow> Inl error
              | Inr b64 \<Rightarrow>
                  Inr \<lparr> id_photo = substr 2 9 rnd,
                        name = file_name file,
                        url = createObjectURL E (the (finalBlob displayBlob)),
                        base64 = b64,
                        location = loc,
                        camera = Some cam,
                        mimeType = (if isHeic file then ''image/jpeg'' else file_type file) \<rparr>))"

text \<open>The \<^verbatim>\<open>catch\<close> clause logs and returns \<^verbatim>\<open>null\<close>.\<close>

definition processFile :: "runtime \<Rightarrow> string \<Rightarrow> File \<Rightarrow> js_error + TrekPhoto option" where
  "processFile E rnd file =
     (case processFile_try E rnd file of
        Inl err \<Rightarrow> Inr None
      | Inr photo \<Rightarrow> Inr (Some photo))"

text \<open>\<^verbatim>\<open>Promise.all\<close> rejects with the first rejection.\<close>

fun promise_all :: "(js_error + 'a) list \<Rightarrow> js_error + 'a list" where
  "promise_all [] = Inr []"
| "promise_all (Inl e # ps) = Inl e"
| "promise_all (Inr x # ps) = (case promise_all ps of Inl e \<Rightarrow> Inl e | Inr xs \<Rightarrow> Inr (x # xs))"

text \<open>The state setters that \<^verbatim>\<open>processFiles\<close> calls, in order.\<close>

datatype setter = SetIsConverting bool | SetPhotos_append "TrekPhoto list"

fun apply_setter :: "Session \<Rightarrow> setter \<Rightarrow> Session" where
  "apply_setter st (SetIsConverting b) = st\<lparr>isConverting := b\<rparr>"
| "apply_setter st (SetPhotos_append new) = st\<lparr>photos := photos st @ new\<rparr>"

text \<open>
  \<^verbatim>\<open>results.filter(p => p !== null)\<close>
\<close>

definition validNewPhotos :: "TrekPhoto option list \<Rightarrow> TrekPhoto list" where
  "validNewPhotos results = map the (filter (\<lambda>p. p \<noteq> None) results)"

text \<open>\<open>rnd i\<close> is the random string drawn for the \<open>i\<close>-th file of the batch.\<close>

definition processFiles :: "runtime \<Rightarrow> (nat \<Rightarrow> string) \<Rightarrow> File list \<Rightarrow> js_error + setter list" where
  "processFiles E rnd files =
     (if length files = 0 then Inr []
      else
        (case promise_all (map (\<lambda>(i, file). processFile E (rnd i) file) (enumerate 0 files)) of
           Inl error \<Rightarrow> Inl error
         | Inr results \<Rightarrow>
             Inr [SetIsConverting True, SetPhotos_append (validNewPhotos results),
                  SetIsConverting False]))"

definition ingest :: "runtime \<Rightarrow> (nat \<Rightarrow> string) \<Rightarrow> File list \<Rightarrow> Session \<Rightarrow> js_error + Session" where
  "ingest E rnd files st =
     (case processFiles E rnd files of
        Inl error \<Rightarrow> Inl error
      | Inr setters \<Rightarrow> Inr (foldl apply_setter st setters))"

section \<open>Removal and clearing (App: deletePhoto, handleClearAll)\<close>

definition deletePhoto :: "string \<Rightarrow> Session \<Rightarrow> Session" where
  "deletePhoto i st =
     (let prev = photos st;
          st1 = (case find (\<lambda>p. id_photo p = i) prev of
                   None \<Rightarrow> st
                 | Some photoToRemove \<Rightarrow> st\<lparr>revoked := revoked st @ [url photoToRemove]\<rparr>)
      in st1\<lparr> photos := filter (\<lambda>p. id_photo p \<noteq> i) prev,
               activePhotoId := (if activePhotoId st = Some i then None else activePhotoId st) \<rparr>)"

text \<open>\<open>confirmed\<close> is the answer of \<^verbatim>\<open>window.confirm\<close>; an empty url is falsy.\<close>

definition handleClearAll :: "bool \<Rightarrow> Session \<Rightarrow> Session" where
  "handleClearAll confirmed st =
     (if confirmed
      then st\<lparr> revoked := revoked st @ map url (filter (\<lambda>p. url p \<noteq> []) (photos st)),
               photos := [],
               activePhotoId := None,
               isGalleryOpen := False,
               galleryIndex := 0 \<rparr>
      else st)"

text \<open>The operations that change the collection, and the states they reach.\<close>

datatype operation =
  Ingest runtime "nat \<Rightarrow> string" "File list"
| Remove string
| Clear

fun apply_operation :: "Session \<Rightarrow> operation \<Rightarrow> Session" where
  "apply_operation st (Ingest E rnd files) =
     (case ingest E rnd files st of Inl error \<Rightarrow> st | Inr st' \<Rightarrow> st')"
| "apply_operation st (Remove i) = deletePhoto i st"
| "apply_operation st Clear = handleClearAll True st"

definition run_operations :: "operation list \<Rightarrow> Session" where
  "run_operations ops = foldl apply_operation initialSession ops"

section \<open>Export (App: exportGPX)\<close>

definition nl :: string where
  "nl = [CHR 0x0A]"

definition dq :: string where
  "dq = [CHR 0x22]"

text \<open>\<^verbatim>\<open>name.replace(/&/g, '&amp;')\<close>\<close>

definition escapeAmp :: "string \<Rightarrow> string" where
  "escapeAmp s = concat (map (\<lambda>c. if c = CHR ''&'' then ''&amp;'' else [c]) s)"

text \<open>
  \<^verbatim>\<open>alt ? `<ele>${alt}</ele>` : ''\<close>: an undefined altitude, the altitude 0 and the altitude
  NaN are falsy.
\<close>

definition eleElement :: "runtime \<Rightarrow> GPSLocation \<Rightarrow> string" where
  "eleElement E l =
     (case alt l of
        None \<Rightarrow> []
      | Some NotANumber \<Rightarrow> []
      | Some (Finite a) \<Rightarrow>
          (if a \<noteq> 0 then ''<ele>'' @ numberToString E a @ ''</ele>'' else []))"

text \<open>
  \<^verbatim>\<open>timestamp ? `<time>${timestamp.toISOString()}</time>` : ''\<close>: every Date object is
  truthy, and \<^verbatim>\<open>toISOString\<close> of an Invalid Date throws a RangeError.
\<close>

definition timeElement :: "runtime \<Rightarrow> GPSLocation \<Rightarrow> js_error + string" where
  "timeElement E l =
     (case timestamp l of
        None \<Rightarrow> Inr []
      | Some InvalidDate \<Rightarrow> Inl RangeError
      | Some (Date t) \<Rightarrow> Inr (''<time>'' @ toISOString E t @ ''</time>''))"

definition trkpt :: "runtime \<Rightarrow> TrekPhoto \<Rightarrow> js_error + string" where
  "trkpt E p =
     (let l = the (location p) in
      case timeElement E l of
        Inl error \<Rightarrow> Inl error
      | Inr time \<Rightarrow>
          Inr (nl @ ''      <trkpt lat='' @ dq @ numberToString E (lat l) @ dq
               @ '' lon='' @ dq @ numberToString E (lng l) @ dq @ ''>''
               @ nl @ ''        '' @ eleElement E l
               @ nl @ ''        '' @ time
               @ nl @ ''        <name>'' @ escapeAmp (name p) @ ''</name>''
               @ nl @ ''      </trkpt>''))"

text \<open>\<^verbatim>\<open>validPhotos.forEach(p => { gpx += ... })\<close>\<close>

fun forEach_trkpt :: "runtime \<Rightarrow> TrekPhoto list \<Rightarrow> string \<Rightarrow> js_error + string" where
  "forEach_trkpt E [] gpx = Inr gpx"
| "forEach_trkpt E (p # ps) gpx =
     (case trkpt E p of
        Inl error \<Rightarrow> Inl error
      | Inr s \<Rightarrow> forEach_trkpt E ps (gpx @ s))"

definition gpxHeader :: "runtime \<Rightarrow> string" where
  "gpxHeader E =
     ''<?xml version='' @ dq @ ''1.0'' @ dq @ '' encoding='' @ dq @ ''UTF-8'' @ dq @ ''?>''
     @ nl @ ''<gpx version='' @ dq @ ''1.1'' @ dq @ '' creator='' @ dq @ ''TrekTrack'' @ dq
     @ '' xmlns='' @ dq @ ''http://www.topografix.com/GPX/1/1'' @ dq @ ''>''
     @ nl @ ''  <metadata><name>Expedition Export '' @ toLocaleDateString_now E
     @ ''</name></metadata>''
     @ nl @ ''  <trk><name>Digital Trail</name><trkseg>''"

definition gpxFooter :: string where
  "gpxFooter = ''</trkseg></trk></gpx>''"

text \<open>
  The result is the text handed to the download, \<open>None\<close> when the function returns before
  building one, \<open>Inl\<close> when an exception leaves it.
\<close>

definition exportGPX :: "runtime \<Rightarrow> TrekPhoto list \<Rightarrow> js_error + string option" where
  "exportGPX E photoList =
     (let validPhotos = filter hasLocation (sortedPhotos photoList) in
      if length validPhotos = 0 then Inr None
      else
        (case forEach_trkpt E validPhotos (gpxHeader E) of
           Inl error \<Rightarrow> Inl error
         | Inr gpx \<Rightarrow> Inr (Some (gpx @ gpxFooter))))"

section \<open>Playback (Map: runPlayback and the effect on isPlaying)\<close>

text \<open>
  \<^verbatim>\<open>setIsPlaying(false)\<close>; when the flag changes, the effect runs and clears the ref.
\<close>

definition finishPlayback :: "Session \<Rightarrow> Session" where
  "finishPlayback st =
     (if isPlaying st then st\<lparr>isPlaying := False, playbackRef := None\<rparr> else st)"

text \<open>
  The \<^verbatim>\<open>for (const p of validPhotos)\<close> loop, run from the waypoints it has still to visit
  up to its next \<^verbatim>\<open>await\<close>: it tests the ref, selects, and suspends on a 3000 ms timer;
  when the waypoints are exhausted or the ref is null it leaves the loop and calls
  \<^verbatim>\<open>setIsPlaying(false)\<close>.
\<close>

definition resume :: "TrekPhoto list \<Rightarrow> Session \<Rightarrow> Session" where
  "resume rest st =
     (case rest of
        [] \<Rightarrow> finishPlayback st
      | p # ps \<Rightarrow>
          (if playbackRef st = None then finishPlayback st
           else st\<lparr> activePhotoId := Some (id_photo p),
                    selected := selected st @ [(clock st, id_photo p)],
                    timers := timers st @ [(clock st + 3000, ps)] \<rparr>))"

text \<open>
  \<^verbatim>\<open>runPlayback\<close> is called by the effect, with \<open>isPlaying\<close> already true, so that its
  \<^verbatim>\<open>setIsPlaying(true)\<close> changes nothing and starts no effect.
\<close>

definition runPlayback :: "Session \<Rightarrow> Session" where
  "runPlayback st =
     (let validPhotos = gpsPhotos (photos st) in
      if length validPhotos = 0 then st
      else resume validPhotos (st\<lparr>isPlaying := True\<rparr>))"

text \<open>\<^verbatim>\<open>setIsPlaying(v)\<close> followed, when the flag changes, by the effect on \<open>isPlaying\<close>.\<close>

definition setIsPlaying :: "bool \<Rightarrow> Session \<Rightarrow> Session" where
  "setIsPlaying v st =
     (if isPlaying st = v then st
      else if v then runPlayback (st\<lparr>isPlaying := True, playbackRef := Some 1\<rparr>)
      else st\<lparr>isPlaying := False, playbackRef := None\<rparr>)"

text \<open>The timer that fires next: the earliest, the first set among equals.\<close>

fun earliest :: "(nat \<times> 'a) list \<Rightarrow> (nat \<times> 'a) option" where
  "earliest [] = None"
| "earliest (x # xs) =
     (case earliest xs of
        None \<Rightarrow> Some x
      | Some y \<Rightarrow> (if fst x \<le> fst y then Some x else Some y))"

definition due :: "nat \<Rightarrow> Session \<Rightarrow> (nat \<times> TrekPhoto list) option" where
  "due t st =
     (case earliest (timers st) of
        None \<Rightarrow> None
      | Some x \<Rightarrow> (if fst x \<le> t then Some x else None))"

definition pendingWork :: "Session \<Rightarrow> nat" where
  "pendingWork st = sum_list (map (\<lambda>x. Suc (length (snd x))) (timers st))"

lemma earliest_in_set: "earliest ts = Some x \<Longrightarrow> x \<in> set ts"
  by (induction ts arbitrary: x) (auto split: option.splits if_splits)

lemma sum_list_remove1_Suc:
  "x \<in> set ts \<Longrightarrow>
   sum_list (map (\<lambda>x. Suc (length (snd x))) ts)
     = Suc (length (snd x)) + sum_list (map (\<lambda>x. Suc (length (snd x))) (remove1 x ts))"
  by (induction ts) auto

lemma pendingWork_resume:
  "pendingWork (resume rest st) \<le> pendingWork st + length rest"
  by (auto simp: resume_def finishPlayback_def pendingWork_def split: list.splits)

text \<open>Time passes up to \<open>t\<close>: every timer due by then fires, in order.\<close>

function run_until :: "nat \<Rightarrow> Session \<Rightarrow> Session" where
  "run_until t st =
     (case due t st of
        None \<Rightarrow> st\<lparr>clock := max (clock st) t\<rparr>
      | Some x \<Rightarrow>
          run_until t (resume (snd x) (st\<lparr>clock := fst x, timers := remove1 x (timers st)\<rparr>)))"
  by pat_completeness auto
termination
proof (relation "measure (\<lambda>(t, st). pendingWork st)")
  show "wf (measure (\<lambda>(t, st). pendingWork st))" by simp
next
  fix t st x
  assume "due t st = Some x"
  then have mem: "x \<in> set (timers st)"
    by (auto simp: due_def dest: earliest_in_set split: option.splits if_splits)
  let ?st = "st\<lparr>clock := fst x, timers := remove1 x (timers st)\<rparr>"
  have "pendingWork (resume (snd x) ?st) \<le> pendingWork ?st + length (snd x)"
    by (rule pendingWork_resume)
  moreover have "pendingWork st = Suc (length (snd x)) + pendingWork ?st"
    using sum_list_remove1_Suc [OF mem] by (simp add: pendingWork_def)
  ultimately show "((t, resume (snd x) ?st), (t, st)) \<in> measure (\<lambda>(t, st). pendingWork st)"
    by simp
qed

declare run_until.simps [simp del]

text \<open>The user presses the Journey/Stop button at time \<open>t\<close>.\<close>

definition clickPlay :: "nat \<Rightarrow> Session \<Rightarrow> Session" where
  "clickPlay t st = (let s = run_until t st in setIsPlaying (\<not> isPlaying s) s)"

section \<open>Sample data\<close>

text \<open>Photos and sessions on which the results below are evaluated.\<close>

text \<open>A photo has no timestamp when it has no location, or a location without one.\<close>

definition noTimestamp :: "TrekPhoto \<Rightarrow> bool" where
  "noTimestamp p = (case location p of None \<Rightarrow> True | Some l \<Rightarrow> timestamp l = None)"

definition samplePhoto :: "string \<Rightarrow> GPSLocation option \<Rightarrow> TrekPhoto" where
  "samplePhoto i l =
     \<lparr> id_photo = i, name = i @ ''.jpg'', url = ''blob:'' @ i, base64 = [], location = l,
       camera = None, mimeType = ''image/jpeg'' \<rparr>"

definition photoUndated :: TrekPhoto where
  "photoUndated =
     samplePhoto ''u'' (Some \<lparr> lat = 0, lng = 0, alt = None, timestamp = None \<rparr>)"

definition photo1969 :: TrekPhoto where
  "photo1969 =
     samplePhoto ''o''
       (Some \<lparr> lat = 0, lng = 1, alt = None, timestamp = Some (Date (- 1000)) \<rparr>)"

definition photo2024 :: TrekPhoto where
  "photo2024 =
     samplePhoto ''n''
       (Some \<lparr> lat = 0, lng = 2, alt = Some (Finite 150),
                timestamp = Some (Date 1704067200000) \<rparr>)"

definition photoNoGps :: TrekPhoto where
  "photoNoGps = samplePhoto ''x'' None"

definition photoNear :: TrekPhoto where
  "photoNear =
     samplePhoto ''c'' (Some \<lparr> lat = 0, lng = 1 / 10000, alt = None, timestamp = None \<rparr>)"

definition photoDegree :: TrekPhoto where
  "photoDegree =
     samplePhoto ''d'' (Some \<lparr> lat = 0, lng = 1, alt = None, timestamp = None \<rparr>)"

section \<open>Which sub-step of a file fails\<close>

text \<open>
  The three kinds of per-file failure that the claims speak of, read off the runtime: the
  EXIF load throws; the HEIC conversion of a HEIC/HEIF file rejects; reading the final blob
  as a data URL rejects (or there is no final blob).  A file is \<open>dropped\<close> when the second
  or the third happens.
\<close>

definition displayBlob :: "runtime \<Rightarrow> File \<Rightarrow> js_error + heic_output" where
  "displayBlob E file = (if isHeic file then heic2any E file else Inr (OneBlob (file_blob file)))"

definition metadataFails :: "runtime \<Rightarrow> File \<Rightarrow> bool" where
  "metadataFails E file = isl (ExifReader_load E file)"

definition transcodingFails :: "runtime \<Rightarrow> File \<Rightarrow> bool" where
  "transcodingFails E file = (isHeic file \<and> isl (heic2any E file))"

definition encodingFails :: "runtime \<Rightarrow> File \<Rightarrow> bool" where
  "encodingFails E file =
     (case displayBlob E file of
        Inl error \<Rightarrow> False
      | Inr converted \<Rightarrow> isl (fileToBase64 E (finalBlob converted)))"

definition dropped :: "runtime \<Rightarrow> File \<Rightarrow> bool" where
  "dropped E file = (transcodingFails E file \<or> encodingFails E file)"

text \<open>
  A runtime for the examples.  What it does with a file depends on the file's content:
  the EXIF load throws for \<open>no-exif\<close>, the conversion rejects for \<open>bad-heic\<close>, the read
  rejects for \<open>unreadable\<close>.  Its reader gives the altitude as a text with the unit, but
  for \<open>numeric-zero\<close>, where it gives the number 0, and for \<open>no-altitude\<close>, where the tag is
  missing.  Its \<^verbatim>\<open>Date\<close> constructor parses the one
  date that the examples use and gives the Invalid Date for any other string, as every
  runtime does for the all-zero date that a camera with an unset clock writes.  Its
  conversion of a text to a number knows the numerals 0 and 150 and gives NaN for any other
  text, as every runtime does for a numeral followed by a unit.
\<close>

definition sampleTags :: "blob \<Rightarrow> ExifTags" where
  "sampleTags b =
     \<lparr> GPSLatitude = (if b = ''no-gps'' then None else Some (10123456 / 1000000)),
       GPSLongitude = (if b = ''no-gps'' then None else Some (20654321 / 1000000)),
       GPSAltitude =
         (if b = ''sea-level'' then Some (StringValue ''0 m'')
          else if b = ''no-altitude'' then None
          else if b = ''numeric-zero'' then Some (NumberValue (Finite 0))
          else Some (StringValue ''150 m'')),
       DateTimeOriginal =
         (if b = ''zero-date'' then Some ''0000:00:00 00:00:00''
          else if b = ''no-date'' then None
          else Some ''2024:01:01 00:00:00''),
       Make = Some ''Canon'', Model = None, ExposureTime = None, FNumber = None,
       ISOSpeedRatings = None, FocalLength = None, LensModel = Some [],
       Lens = Some ''EF50mm'' \<rparr>"

definition sampleNewDate :: "string \<Rightarrow> js_date" where
  "sampleNewDate s = (if s = ''2024-01-01 00:00:00'' then Date 1704067200000 else InvalidDate)"

definition sampleStringToNumber :: "string \<Rightarrow> js_float" where
  "sampleStringToNumber s =
     (if s = ''0'' then Finite 0 else if s = ''150'' then Finite 150 else NotANumber)"

definition sampleNumberToString :: "real \<Rightarrow> string" where
  "sampleNumberToString x =
     (if x = 10123456 / 1000000 then ''10.123456''
      else if x = 20654321 / 1000000 then ''20.654321''
      else if x = 150 then ''150''
      else ''0'')"

definition sampleToISOString :: "int \<Rightarrow> string" where
  "sampleToISOString t =
     (if t = 1704067200000 then ''2024-01-01T00:00:00.000Z'' else ''1970-01-01T00:00:00.000Z'')"

definition sampleRuntime :: runtime where
  "sampleRuntime =
     \<lparr> ExifReader_load =
         (\<lambda>f. if file_blob f = ''no-exif'' then Inl (Failure ''Invalid image format'')
              else Inr (sampleTags (file_blob f))),
       heic2any =
         (\<lambda>f. if file_blob f = ''bad-heic'' then Inl (Failure ''ERR_LIBHEIF'')
              else Inr (ManyBlobs [''jpeg-of-'' @ file_blob f])),
       readAsDataURL =
         (\<lambda>b. if b = ''unreadable'' then Inl (Failure ''NotReadableError'')
              else Inr (''data:image/jpeg;base64,'' @ b)),
       createObjectURL = (\<lambda>b. ''blob:'' @ b),
       newDate = sampleNewDate,
       stringToNumber = sampleStringToNumber,
       numberToString = sampleNumberToString,
       toISOString = sampleToISOString,
       toLocaleDateString_now = ''1/1/2024'' \<rparr>"

definition sampleFile :: "string \<Rightarrow> blob \<Rightarrow> File" where
  "sampleFile n b = \<lparr> file_name = n, file_type = ''image/png'', file_blob = b \<rparr>"

definition sampleRandom :: "nat \<Rightarrow> string" where
  "sampleRandom i = ''0.'' @ replicate (Suc i) CHR ''k'' @ ''4fzyo82mvyr''"

text \<open>
  The collection after one batch of files is ingested into the initial session, in the
  runtime of the examples.
\<close>

definition ingested :: "File list \<Rightarrow> TrekPhoto list" where
  "ingested files = photos (run_operations [Ingest sampleRuntime sampleRandom files])"

section \<open>Track points\<close>

text \<open>
  The export as the claims describe it: the data that one track point carries, and its
  rendering.  These are compared below with the text that \<open>exportGPX\<close> builds.
\<close>

record TrackPoint =
  tp_lat :: real
  tp_lon :: real
  tp_ele :: "real option"
  tp_time :: "int option"
  tp_name :: string

definition trackPointOf :: "TrekPhoto \<Rightarrow> TrackPoint" where
  "trackPointOf p =
     (let l = the (location p) in
      \<lparr> tp_lat = lat l,
        tp_lon = lng l,
        tp_ele = (case alt l of
                    Some (Finite a) \<Rightarrow> (if a = 0 then None else Some a)
                  | _ \<Rightarrow> None),
        tp_time = (case timestamp l of Some (Date t) \<Rightarrow> Some t | _ \<Rightarrow> None),
        tp_name = name p \<rparr>)"

definition renderTrackPoint :: "runtime \<Rightarrow> TrackPoint \<Rightarrow> string" where
  "renderTrackPoint E tp =
     nl @ ''      <trkpt lat='' @ dq @ numberToString E (tp_lat tp) @ dq
     @ '' lon='' @ dq @ numberToString E (tp_lon tp) @ dq @ ''>''
     @ nl @ ''        ''
     @ (case tp_ele tp of None \<Rightarrow> [] | Some a \<Rightarrow> ''<ele>'' @ numberToString E a @ ''</ele>'')
     @ nl @ ''        ''
     @ (case tp_time tp of None \<Rightarrow> [] | Some t \<Rightarrow> ''<time>'' @ toISOString E t @ ''</time>'')
     @ nl @ ''        <name>'' @ escapeAmp (tp_name tp) @ ''</name>''
     @ nl @ ''      </trkpt>''"

definition validDates :: "TrekPhoto list \<Rightarrow> bool" where
  "validDates ps =
     list_all (\<lambda>p. case location p of
                     None \<Rightarrow> True
                   | Some l \<Rightarrow> timestamp l \<noteq> Some InvalidDate) ps"

text \<open>A photo as it is, but with an altitude of 0 or NaN removed.\<close>

definition withoutFalsyAlt :: "TrekPhoto \<Rightarrow> TrekPhoto" where
  "withoutFalsyAlt p =
     (case location p of
        None \<Rightarrow> p
      | Some l \<Rightarrow>
          (if alt l = Some (Finite 0) \<or> alt l = Some NotANumber
           then p\<lparr>location := Some (l\<lparr>alt := None\<rparr>)\<rparr> else p))"

section \<open>Identifiers drawn at random\<close>

text \<open>
  The ids that a batch gives to the files it keeps, and the sequences of operations in
  which every batch draws ids that differ from each other and from the ids already in
  the collection.
\<close>

definition newIds :: "runtime \<Rightarrow> (nat \<Rightarrow> string) \<Rightarrow> File list \<Rightarrow> string list" where
  "newIds E rnd files =
     map (\<lambda>(i, f). substr 2 9 (rnd i)) (filter (\<lambda>(i, f). \<not> dropped E f) (enumerate 0 files))"

fun freshDraws :: "Session \<Rightarrow> operation list \<Rightarrow> bool" where
  "freshDraws st [] = True"
| "freshDraws st (Ingest E rnd files # ops) =
     (distinct (map id_photo (photos st) @ newIds E rnd files)
      \<and> freshDraws (apply_operation st (Ingest E rnd files)) ops)"
| "freshDraws st (Remove i # ops) = freshDraws (apply_operation st (Remove i)) ops"
| "freshDraws st (Clear # ops) = freshDraws (apply_operation st Clear) ops"

definition sampleSession :: Session where
  "sampleSession = initialSession\<lparr>photos := [photo2024, photoNoGps, photoUndated, photo1969]\<rparr>"

definition sameRandom :: "nat \<Rightarrow> string" where
  "sameRandom i = ''0.4fzyo82mvyr''"

section \<open>Sorting lemmas\<close>

lemma insert_by_key:
  "insert_by (\<lambda>a b. f a - f b) x ys = insort_key f x ys"
  by (induction ys) auto

lemma array_sort_key:
  "array_sort (\<lambda>a b. f a - f b) xs = sort_key f xs"
  by (induction xs) (auto simp: array_sort_def insert_by_key)

lemma compareTime_fun: "compareTime = (\<lambda>a b. timeKey a - timeKey b)"
  by (intro ext) (simp add: compareTime_def)

lemma gpsPhotos_sort_key:
  "gpsPhotos ps = sort_key timeKey (filter hasLocation ps)"
  by (simp add: gpsPhotos_def compareTime_fun array_sort_key)

lemma sortedPhotos_sort_key:
  "sortedPhotos ps = sort_key timeKey ps"
  by (simp add: sortedPhotos_def compareTime_fun array_sort_key)

lemma length_gpsPhotos:
  "length (gpsPhotos ps) = length (filter hasLocation ps)"
  by (simp add: gpsPhotos_sort_key)

lemma set_gpsPhotos:
  "set (gpsPhotos ps) = {p \<in> set ps. hasLocation p}"
  by (auto simp: gpsPhotos_sort_key)

lemma filter_sortedPhotos:
  "filter hasLocation (sortedPhotos ps) = gpsPhotos ps"
  by (simp add: sortedPhotos_sort_key gpsPhotos_sort_key filter_sort)

lemma sorted_gpsPhotos: "sorted (map timeKey (gpsPhotos ps))"
  by (simp add: gpsPhotos_sort_key)

lemma stable_gpsPhotos:
  "filter (\<lambda>p. timeKey p = k) (gpsPhotos ps)
     = filter (\<lambda>p. timeKey p = k) (filter hasLocation ps)"
  unfolding gpsPhotos_sort_key by (rule sort_key_stable)

lemma mset_gpsPhotos: "mset (gpsPhotos ps) = mset (filter hasLocation ps)"
  by (simp add: gpsPhotos_sort_key)

lemma timeKey_noTimestamp: "noTimestamp p \<Longrightarrow> timeKey p = 0"
  by (auto simp: noTimestamp_def timeKey_def split: option.splits)

lemma timeKey_Date:
  "location p = Some l \<Longrightarrow> timestamp l = Some (Date t) \<Longrightarrow> timeKey p = t"
  by (simp add: timeKey_def)

lemma sorted_map_before:
  assumes "sorted (map f xs)" "i < length xs" "j < length xs" "f (xs ! i) < f (xs ! j)"
  shows "i < j"
proof (rule ccontr)
  assume "\<not> i < j"
  then have "j \<le> i" by simp
  with assms(1,2) have "map f xs ! j \<le> map f xs ! i"
    by (intro sorted_nth_mono) auto
  with assms show False by simp
qed

lemmas sample_defs =
  samplePhoto_def photoUndated_def photo1969_def photo2024_def photoNoGps_def
  photoNear_def photoDegree_def

lemma gpsPhotos_sample:
  "gpsPhotos [photo2024, photoNoGps, photoUndated, photo1969]
     = [photo1969, photoUndated, photo2024]"
  by (simp add: gpsPhotos_def array_sort_def hasLocation_def sample_defs
      compareTime_def timeKey_def)

section \<open>C1: the time-ordered trek\<close>

text \<open>
  C1 (as amended).  The time-ordered trek \<open>gpsPhotos\<close> holds exactly the photos with a
  location, each as often as the collection does; it is sorted ascending by the time key,
  and photos of equal key keep their order of insertion.  The view that export filters out
  of \<open>sortedPhotos\<close> is the same list.  The key of a photo with a valid timestamp is its
  time value, and the key of a photo without a timestamp is 0, the epoch: such a photo
  comes before every photo dated after the epoch, and after every photo dated before it.
\<close>

theorem C1_time_ordered_trek:
  "mset (gpsPhotos ps) = mset (filter hasLocation ps)
   \<and> sorted (map timeKey (gpsPhotos ps))
   \<and> (\<forall>k. filter (\<lambda>p. timeKey p = k) (gpsPhotos ps)
            = filter (\<lambda>p. timeKey p = k) (filter hasLocation ps))
   \<and> filter hasLocation (sortedPhotos ps) = gpsPhotos ps
   \<and> (\<forall>p l t. location p = Some l \<and> timestamp l = Some (Date t) \<longrightarrow> timeKey p = t)
   \<and> (\<forall>p. noTimestamp p \<longrightarrow> timeKey p = 0)
   \<and> (\<forall>i j. i < length (gpsPhotos ps) \<and> j < length (gpsPhotos ps)
          \<and> noTimestamp (gpsPhotos ps ! i) \<and> 0 < timeKey (gpsPhotos ps ! j) \<longrightarrow> i < j)
   \<and> (\<forall>i j. i < length (gpsPhotos ps) \<and> j < length (gpsPhotos ps)
          \<and> noTimestamp (gpsPhotos ps ! i) \<and> timeKey (gpsPhotos ps ! j) < 0 \<longrightarrow> j < i)"
proof -
  have after: "i < j" if "i < length (gpsPhotos ps)" "j < length (gpsPhotos ps)"
      "noTimestamp (gpsPhotos ps ! i)" "0 < timeKey (gpsPhotos ps ! j)" for i j
    using sorted_map_before [OF sorted_gpsPhotos that(1,2)] that(3,4)
    by (simp add: timeKey_noTimestamp)
  have before: "j < i" if "i < length (gpsPhotos ps)" "j < length (gpsPhotos ps)"
      "noTimestamp (gpsPhotos ps ! i)" "timeKey (gpsPhotos ps ! j) < 0" for i j
    using sorted_map_before [OF sorted_gpsPhotos that(2,1)] that(3,4)
    by (simp add: timeKey_noTimestamp)
  show ?thesis
    using after before
    by (simp add: mset_gpsPhotos sorted_gpsPhotos stable_gpsPhotos filter_sortedPhotos
        timeKey_Date timeKey_noTimestamp)
qed

text \<open>
  The theorem at a collection of four photos, one of them without a location: the photo
  without a timestamp (index 1) lies between the one dated 1969 and the one dated 2024.
\<close>

theorem C1_time_ordered_trek_witness:
  "(1::nat) < length (gpsPhotos [photo2024, photoNoGps, photoUndated, photo1969])
   \<and> noTimestamp (gpsPhotos [photo2024, photoNoGps, photoUndated, photo1969] ! 1)
   \<and> 0 < timeKey (gpsPhotos [photo2024, photoNoGps, photoUndated, photo1969] ! 2)
   \<and> timeKey (gpsPhotos [photo2024, photoNoGps, photoUndated, photo1969] ! 0) < 0
   \<and> sorted (map timeKey (gpsPhotos [photo2024, photoNoGps, photoUndated, photo1969]))
   \<and> filter hasLocation (sortedPhotos [photo2024, photoNoGps, photoUndated, photo1969])
       = [photo1969, photoUndated, photo2024]"
  using C1_time_ordered_trek [of "[photo2024, photoNoGps, photoUndated, photo1969]"]
  by (simp add: gpsPhotos_sample) (simp add: noTimestamp_def timeKey_def sample_defs)

text \<open>
  The claim as stated fails: a photo without a timestamp does not always sort first.  Here
  it is inserted first and comes out last, behind a photo taken one second before the epoch.
\<close>

theorem C1_undated_not_first:
  "hasLocation photoUndated \<and> noTimestamp photoUndated \<and> \<not> noTimestamp photo1969
   \<and> gpsPhotos [photoUndated, photo1969] = [photo1969, photoUndated]"
  by (simp add: gpsPhotos_def array_sort_def hasLocation_def sample_defs
      compareTime_def timeKey_def noTimestamp_def)

section \<open>C2: statistics are absent below two waypoints\<close>

lemma stats_None_iff: "(stats ps = None) = (length (filter hasLocation ps) < 2)"
  by (simp add: stats_def Let_def length_gpsPhotos split: prod.splits)

text \<open>
  C2.  \<open>stats\<close> returns the "no data" value \<open>None\<close> (the \<^verbatim>\<open>null\<close> of the source, not a record
  of zeros) exactly when the collection has 0 or 1 photos with a location, and a record of
  statistics exactly when it has at least 2.
\<close>

theorem C2_stats_absent:
  "(stats ps = None)
     = (length (filter hasLocation ps) = 0 \<or> length (filter hasLocation ps) = 1)
   \<and> ((\<exists>st. stats ps = Some st) = (2 \<le> length (filter hasLocation ps)))"
proof -
  have "(\<exists>st. stats ps = Some st) = (stats ps \<noteq> None)" by auto
  then show ?thesis
    unfolding stats_None_iff by (simp only: length_0_conv [symmetric]) arith
qed

theorem C2_stats_absent_witness:
  "stats [] = None \<and> stats [photoUndated, photoNoGps] = None
   \<and> (\<exists>st. stats [photoUndated, photoNoGps, photo1969] = Some st)"
  using C2_stats_absent [of "[]"] C2_stats_absent [of "[photoUndated, photoNoGps]"]
    C2_stats_absent [of "[photoUndated, photoNoGps, photo1969]"]
  by (simp add: hasLocation_def sample_defs)

section \<open>C3: total distance\<close>

subsection \<open>Bounds on \<open>pi\<close> from the sine of 30 degrees\<close>

lemma sin_taylor5:
  fixes x :: real
  assumes "0 \<le> x"
  shows "\<bar>sin x - (x - x ^ 3 / 6)\<bar> \<le> x ^ 5 / 120"
proof -
  have c: "sin_coeff 0 = 0" "sin_coeff 1 = 1" "sin_coeff 2 = 0" "sin_coeff 3 = - 1 / 6"
    "sin_coeff 4 = 0"
    by (simp_all add: sin_coeff_def fact_numeral)
  have "(\<Sum>m<5. sin_coeff m * x ^ m)
      = sin_coeff 0 * x ^ 0 + sin_coeff 1 * x ^ 1 + sin_coeff 2 * x ^ 2
        + sin_coeff 3 * x ^ 3 + sin_coeff 4 * x ^ 4"
    by (simp add: numeral_eq_Suc)
  then have s: "(\<Sum>m<5. sin_coeff m * x ^ m) = x - x ^ 3 / 6"
    by (simp only: c) simp
  have f: "fact 5 = (120::real)"
    by (simp add: fact_numeral)
  have a: "\<bar>x\<bar> = x"
    using assms by simp
  have "\<bar>sin x - (\<Sum>m<5. sin_coeff m * x ^ m)\<bar> \<le> inverse (fact 5) * \<bar>x\<bar> ^ 5"
    by (rule Maclaurin_sin_bound)
  then have "\<bar>sin x - (x - x ^ 3 / 6)\<bar> \<le> inverse 120 * x ^ 5"
    by (simp only: s f a)
  moreover have "inverse (120::real) * x ^ 5 = x ^ 5 / 120"
    by simp
  ultimately show ?thesis
    by (simp only:)
qed

lemma half_sine_upper:
  fixes x u a b c u' :: real
  assumes s: "sin x = 1 / 2" and x0: "0 \<le> x" and xu: "x \<le> u"
    and a: "u * u \<le> a" and b: "a * a \<le> b"
    and c: "c \<le> 1 - a / 6 - b / 120" and c0: "0 < c" and u': "1 / (2 * c) \<le> u'"
  shows "x \<le> u'"
proof -
  have xx0: "0 \<le> x * x" by simp
  have "x * x \<le> u * u" by (rule mult_mono [OF xu xu]) (use x0 xu in simp_all)
  with a have x2: "x * x \<le> a" by simp
  have a0: "0 \<le> a" using xx0 x2 by linarith
  have "(x * x) * (x * x) \<le> a * a" by (rule mult_mono [OF x2 x2 a0 xx0])
  with b have x4: "(x * x) * (x * x) \<le> b" by simp
  have "x ^ 3 = x * (x * x)" by (simp add: power3_eq_cube)
  with mult_left_mono [OF x2 x0] have x3: "x ^ 3 \<le> x * a" by simp
  have "x ^ 5 = x * ((x * x) * (x * x))" by (simp add: numeral_eq_Suc)
  with mult_left_mono [OF x4 x0] have x5: "x ^ 5 \<le> x * b" by simp
  from sin_taylor5 [OF x0] s have "x - x ^ 3 / 6 - x ^ 5 / 120 \<le> 1 / 2" by linarith
  with x3 x5 have t: "x - (x * a) / 6 - (x * b) / 120 \<le> 1 / 2" by linarith
  have e: "x * (1 - a / 6 - b / 120) = x - (x * a) / 6 - (x * b) / 120"
    by (simp add: algebra_simps)
  have "x * c \<le> x * (1 - a / 6 - b / 120)" by (rule mult_left_mono [OF c x0])
  also have "\<dots> \<le> 1 / 2" unfolding e by (rule t)
  finally have "x * c \<le> 1 / 2" .
  then have "x \<le> 1 / (2 * c)"
    using c0 by (simp add: field_simps)
  with u' show ?thesis by linarith
qed

lemma half_sine_lower:
  fixes x l a b c l' :: real
  assumes s: "sin x = 1 / 2" and l0: "0 \<le> l" and lx: "l \<le> x"
    and a: "a \<le> l * l" and x4: "(x * x) * (x * x) \<le> b"
    and c: "1 - a / 6 + b / 120 \<le> c" and c0: "0 < c" and l': "l' \<le> 1 / (2 * c)"
  shows "l' \<le> x"
proof -
  have x0: "0 \<le> x" using l0 lx by linarith
  have "l * l \<le> x * x" by (rule mult_mono [OF lx lx x0 l0])
  with a have x2: "a \<le> x * x" by simp
  have "x ^ 3 = x * (x * x)" by (simp add: power3_eq_cube)
  with mult_left_mono [OF x2 x0] have x3: "x * a \<le> x ^ 3" by simp
  have "x ^ 5 = x * ((x * x) * (x * x))" by (simp add: numeral_eq_Suc)
  with mult_left_mono [OF x4 x0] have x5: "x ^ 5 \<le> x * b" by simp
  from sin_taylor5 [OF x0] s have "1 / 2 \<le> x - x ^ 3 / 6 + x ^ 5 / 120" by linarith
  with x3 x5 have t: "1 / 2 \<le> x - (x * a) / 6 + (x * b) / 120" by linarith
  have e: "x * (1 - a / 6 + b / 120) = x - (x * a) / 6 + (x * b) / 120"
    by (simp add: algebra_simps)
  have "1 / 2 \<le> x * (1 - a / 6 + b / 120)" unfolding e by (rule t)
  also have "\<dots> \<le> x * c" by (rule mult_left_mono [OF c x0])
  finally have "1 / 2 \<le> x * c" .
  then have "1 / (2 * c) \<le> x"
    using c0 by (simp add: field_simps)
  with l' show ?thesis by linarith
qed

lemma half_sine_bounds:
  fixes x :: real
  assumes s: "sin x = 1 / 2" and lo: "1 / 3 \<le> x" and hi: "x \<le> 2 / 3"
  shows "522 / 1000 \<le> x \<and> x \<le> 5246 / 10000"
proof -
  have x0: "0 \<le> x" using lo by linarith
  have u1: "x \<le> 542 / 1000"
    by (rule half_sine_upper [OF s x0 hi, where a = "4 / 9" and b = "16 / 81"
          and c = "924 / 1000"]) simp_all
  have u2: "x \<le> 5262 / 10000"
    by (rule half_sine_upper [OF s x0 u1, where a = "2938 / 10000" and b = "864 / 10000"
          and c = "9503 / 10000"]) simp_all
  have u3: "x \<le> 5246 / 10000"
    by (rule half_sine_upper [OF s x0 u2, where a = "2769 / 10000" and b = "767 / 10000"
          and c = "9532 / 10000"]) simp_all
  have xx0: "0 \<le> x * x" by simp
  have "x * x \<le> 5246 / 10000 * (5246 / 10000)"
    by (rule mult_mono [OF u3 u3]) (use x0 in simp_all)
  then have x2: "x * x \<le> 2753 / 10000" by simp
  have "(x * x) * (x * x) \<le> 2753 / 10000 * (2753 / 10000)"
    by (rule mult_mono [OF x2 x2]) (use xx0 in simp_all)
  then have x4: "(x * x) * (x * x) \<le> 76 / 1000" by simp
  have l1: "508 / 1000 \<le> x"
    by (rule half_sine_lower [OF s _ lo _ x4, where a = "1 / 9" and c = "983 / 1000"])
      simp_all
  have l2: "522 / 1000 \<le> x"
    by (rule half_sine_lower [OF s _ l1 _ x4, where a = "258 / 1000" and c = "9577 / 10000"])
      simp_all
  from l2 u3 show ?thesis by simp
qed

lemma pi_bounds: "3132 / 1000 \<le> pi \<and> pi \<le> 31476 / 10000"
proof -
  have lo: "1 / 3 \<le> pi / 6" using pi_ge_two by linarith
  have hi: "pi / 6 \<le> 2 / 3" using pi_less_4 by linarith
  from half_sine_bounds [OF sin_30 lo hi] show ?thesis by linarith
qed


lemma stats_loop_fst:
  "fst (stats_loop g i (d, m))
     = d + (\<Sum>k = i..<length g - 1. segmentKm (g ! k) (g ! (k + 1)))"
proof (induction g i "(d, m)" arbitrary: d m rule: stats_loop.induct)
  case (1 g i d m)
  show ?case
  proof (cases "i < length g - 1")
    case True
    then show ?thesis
      using "1" [OF True] by (subst stats_loop.simps) (simp add: sum.atLeast_Suc_lessThan)
  next
    case False
    then show ?thesis by (subst stats_loop.simps) simp
  qed
qed

lemma stats_distance:
  assumes "2 \<le> length (filter hasLocation ps)"
  shows "\<exists>st. stats ps = Some st
           \<and> distance st
               = toFixed2 (\<Sum>k<length (gpsPhotos ps) - 1.
                   segmentKm (the (location (gpsPhotos ps ! k)))
                             (the (location (gpsPhotos ps ! Suc k))))"
proof -
  let ?g = "map (the \<circ> location) (gpsPhotos ps)"
  have len: "\<not> length (gpsPhotos ps) < 2" using assms by (simp add: length_gpsPhotos)
  have "fst (stats_loop ?g 0 (0, None))
      = (\<Sum>k = 0..<length ?g - 1. segmentKm (?g ! k) (?g ! (k + 1)))"
    by (simp add: stats_loop_fst)
  also have "\<dots> = (\<Sum>k<length (gpsPhotos ps) - 1.
                   segmentKm (the (location (gpsPhotos ps ! k)))
                             (the (location (gpsPhotos ps ! Suc k))))"
    by (rule sum.cong) (auto simp: atLeast0LessThan)
  finally have d: "fst (stats_loop ?g 0 (0, None)) = (\<Sum>k<length (gpsPhotos ps) - 1.
                   segmentKm (the (location (gpsPhotos ps ! k)))
                             (the (location (gpsPhotos ps ! Suc k))))" .
  show ?thesis
    using len d by (auto simp add: stats_def Let_def split: prod.splits)
qed

lemma atan2_sin_cos:
  assumes "0 \<le> t" "t < pi / 2"
  shows "atan2 (sqrt ((sin t)\<^sup>2)) (sqrt (1 - (sin t)\<^sup>2)) = t"
proof -
  have c: "0 < cos t" using assms by (intro cos_gt_zero_pi) linarith+
  have s: "0 \<le> sin t" using assms pi_gt_zero by (intro sin_ge_zero) linarith+
  have "1 - (sin t)\<^sup>2 = (cos t)\<^sup>2" by (simp add: cos_squared_eq)
  then have "sqrt (1 - (sin t)\<^sup>2) = cos t" using c by simp
  moreover have "sqrt ((sin t)\<^sup>2) = sin t" using s by simp
  moreover have "arctan (sin t / cos t) = t"
    using arctan_tan [of t] assms by (simp add: tan_def)
  ultimately show ?thesis using c by (simp add: atan2_def)
qed

lemma segmentKm_equator:
  assumes "lat p = 0" "lat q = 0" "lng p \<le> lng q" "lng q - lng p < 180"
  shows "segmentKm p q = 6371 * ((lng q - lng p) * pi / 180)"
proof -
  define t where "t = (lng q - lng p) * pi / 180 / 2"
  have t0: "0 \<le> t" using assms by (simp add: t_def)
  have "(lng q - lng p) * pi < 180 * pi" using assms(4) pi_gt_zero by simp
  then have t1: "t < pi / 2" by (simp add: t_def)
  have "segmentKm p q = 6371 * (2 * atan2 (sqrt ((sin t)\<^sup>2)) (sqrt (1 - (sin t)\<^sup>2)))"
    using assms(1,2) by (simp add: segmentKm_def Let_def t_def)
  also have "\<dots> = 6371 * (2 * t)" by (simp only: atan2_sin_cos [OF t0 t1])
  finally show ?thesis by (simp add: t_def)
qed

lemma segmentKm_same:
  assumes "lat p = lat q" "lng p = lng q"
  shows "segmentKm p q = 0"
  using assms by (simp add: segmentKm_def atan2_def)

lemma segmentKm_degree:
  assumes "lat p = 0" "lng p = 0" "lat q = 0" "lng q = 1"
  shows "\<bar>segmentKm p q - 111.19\<bar> \<le> 0.5"
proof -
  have "segmentKm p q = 6371 * ((lng q - lng p) * pi / 180)"
    by (rule segmentKm_equator) (use assms in simp_all)
  then have e: "segmentKm p q = 6371 * pi / 180" using assms by simp
  from pi_bounds have lo: "3132 / 1000 \<le> pi" and hi: "pi \<le> 31476 / 10000"
    by blast+
  have "\<bar>6371 * pi / 180 - 11119 / 100\<bar> \<le> 1 / 2"
    using lo hi by linarith
  then show ?thesis unfolding e by simp
qed

lemma segmentKm_near:
  assumes "lat p = 0" "lng p = 0" "lat q = 0" "lng q = 1 / 10000"
  shows "segmentKm p q = 6371 * pi / 1800000"
proof -
  have "segmentKm p q = 6371 * ((lng q - lng p) * pi / 180)"
    by (rule segmentKm_equator) (use assms in simp_all)
  then show ?thesis using assms by simp
qed

lemma toFixed2_near: "toFixed2 (6371 * pi / 1800000) = 1 / 100"
proof -
  from pi_bounds have lo: "3132 / 1000 \<le> pi" and hi: "pi \<le> 31476 / 10000"
    by blast+
  have "\<lfloor>6371 * pi / 1800000 * 100 + 1 / 2\<rfloor> = 1"
  proof (rule floor_unique)
    show "of_int 1 \<le> 6371 * pi / 1800000 * 100 + 1 / 2" using lo by simp
    show "6371 * pi / 1800000 * 100 + 1 / 2 < of_int 1 + 1" using hi by simp
  qed
  moreover have "\<not> 6371 * pi / 1800000 < 0" using pi_gt_zero by simp
  ultimately show ?thesis by (simp add: toFixed2_def)
qed

text \<open>
  C3 (as amended).  For a collection with at least two photos that have a location,
  \<open>stats\<close> returns a record whose \<open>distance\<close> is \<^verbatim>\<open>toFixed(2)\<close> of the sum, over the
  consecutive pairs of the time-ordered trek, of the haversine distance with radius
  6371 km.  The segment between (0, 0) and (0, 1) degrees is within 0.5 km of 111.19 km,
  and a segment between equal coordinates is 0 km.
\<close>

theorem C3_total_distance:
  "(2 \<le> length (filter hasLocation ps) \<longrightarrow>
      (\<exists>st. stats ps = Some st
         \<and> distance st
             = toFixed2 (\<Sum>k<length (gpsPhotos ps) - 1.
                 segmentKm (the (location (gpsPhotos ps ! k)))
                           (the (location (gpsPhotos ps ! Suc k))))))
   \<and> (lat p = 0 \<and> lng p = 0 \<and> lat q = 0 \<and> lng q = 1
        \<longrightarrow> \<bar>segmentKm p q - 111.19\<bar> \<le> 0.5)
   \<and> (lat p = lat q \<and> lng p = lng q \<longrightarrow> segmentKm p q = 0)"
  using stats_distance [of ps] segmentKm_degree [of p q] segmentKm_same [of p q]
  by blast

theorem C3_total_distance_witness:
  "(\<exists>st. stats [photoUndated, photoDegree] = Some st)
   \<and> \<bar>segmentKm \<lparr> lat = 0, lng = 0, alt = None, timestamp = None \<rparr>
                  \<lparr> lat = 0, lng = 1, alt = None, timestamp = None \<rparr> - 111.19\<bar> \<le> 0.5
   \<and> segmentKm \<lparr> lat = 0, lng = 1, alt = None, timestamp = None \<rparr>
                \<lparr> lat = 0, lng = 1, alt = None, timestamp = None \<rparr> = 0"
  using C3_total_distance [of "[photoUndated, photoDegree]"
      "\<lparr> lat = 0, lng = 0, alt = None, timestamp = None \<rparr>"
      "\<lparr> lat = 0, lng = 1, alt = None, timestamp = None \<rparr>"]
    C3_total_distance [of "[]"
      "\<lparr> lat = 0, lng = 1, alt = None, timestamp = None \<rparr>"
      "\<lparr> lat = 0, lng = 1, alt = None, timestamp = None \<rparr>"]
  by (auto simp: hasLocation_def sample_defs)

text \<open>
  The claim as stated fails: the reported distance is rounded to two decimals.  Two photos
  on the equator, 0.0001 degrees apart, are about 11.1 m apart; the reported distance is
  0.01 km, which is less than the haversine distance.
\<close>

theorem C3_distance_is_rounded:
  "map_option distance (stats [photoUndated, photoNear]) = Some (1 / 100)
   \<and> 1 / 100 < segmentKm (the (location photoUndated)) (the (location photoNear))"
proof -
  have g: "gpsPhotos [photoUndated, photoNear] = [photoUndated, photoNear]"
    by (simp add: gpsPhotos_def array_sort_def hasLocation_def sample_defs
        compareTime_def timeKey_def)
  have s: "segmentKm (the (location photoUndated)) (the (location photoNear))
             = 6371 * pi / 1800000"
    by (rule segmentKm_near) (simp_all add: sample_defs)
  have "2 \<le> length (filter hasLocation [photoUndated, photoNear])"
    by (simp add: hasLocation_def sample_defs)
  from stats_distance [OF this] obtain st where
    st: "stats [photoUndated, photoNear] = Some st"
    and d: "distance st
      = toFixed2 (\<Sum>k<length (gpsPhotos [photoUndated, photoNear]) - 1.
          segmentKm (the (location (gpsPhotos [photoUndated, photoNear] ! k)))
                    (the (location (gpsPhotos [photoUndated, photoNear] ! Suc k))))"
    by blast
  have "distance st = 1 / 100"
    unfolding d g by (simp add: s toFixed2_near)
  moreover from pi_bounds have "3132 / 1000 \<le> pi" by blast
  then have "1 / 100 < 6371 * pi / 1800000" by simp
  ultimately show ?thesis by (simp add: st s)
qed

section \<open>C4: ingestion of a batch\<close>

lemma processFile_try_Inl:
  "isl (processFile_try E r file) = dropped E file"
  by (auto simp: processFile_try_def dropped_def transcodingFails_def encodingFails_def
      displayBlob_def Let_def split: sum.splits)

lemma processFile_total:
  "processFile E r file
     = Inr (if dropped E file then None else Some (projr (processFile_try E r file)))"
  using processFile_try_Inl [of E r "file"]
  by (cases "processFile_try E r file") (auto simp: processFile_def)

lemma promise_all_Inr: "promise_all (map (\<lambda>x. Inr (f x)) xs) = Inr (map f xs)"
  by (induction xs) auto

definition outcome :: "runtime \<Rightarrow> (nat \<Rightarrow> string) \<Rightarrow> nat \<times> File \<Rightarrow> TrekPhoto option" where
  "outcome E rnd = (\<lambda>(i, file).
     if dropped E file then None else Some (projr (processFile_try E (rnd i) file)))"

lemma processFile_outcome:
  "(\<lambda>(i, file). processFile E (rnd i) file) = (\<lambda>x. Inr (outcome E rnd x))"
  by (auto simp: outcome_def processFile_total fun_eq_iff)

lemma length_valid_outcomes:
  "length (validNewPhotos (map (outcome E rnd) (enumerate n files)))
     = length (filter (\<lambda>f. \<not> dropped E f) files)"
  by (induction files arbitrary: n) (auto simp: validNewPhotos_def outcome_def)

lemma processFiles_result:
  "processFiles E rnd files
     = Inr (if files = [] then []
            else [SetIsConverting True,
                  SetPhotos_append (validNewPhotos (map (outcome E rnd) (enumerate 0 files))),
                  SetIsConverting False])"
  by (simp add: processFiles_def processFile_outcome promise_all_Inr)

lemma length_kept: "length (filter (\<lambda>f. \<not> P f) xs) = length xs - length (filter P xs)"
  using sum_length_filter_compl [of P xs] by simp

lemmas runtime_defs =
  sampleRuntime_def sampleTags_def sampleNewDate_def sampleStringToNumber_def
  sampleNumberToString_def
  sampleToISOString_def sampleFile_def sampleRandom_def

lemma isHeic_samples:
  "isHeic (sampleFile ''b.HEIC'' b)" "\<not> isHeic (sampleFile ''a.jpg'' b)"
  "\<not> isHeic (sampleFile ''c.jpg'' b)" "\<not> isHeic (sampleFile ''d.jpg'' b)"
  by (simp_all add: isHeic_def endsWith_def toLowerCase_def toLowerChar_def sampleFile_def
      char_of_def bit_0)

lemma dropped_samples:
  "\<not> dropped sampleRuntime (sampleFile ''a.jpg'' ''gps'')"
  "dropped sampleRuntime (sampleFile ''b.HEIC'' ''bad-heic'')"
  "dropped sampleRuntime (sampleFile ''c.jpg'' ''unreadable'')"
  "\<not> dropped sampleRuntime (sampleFile ''d.jpg'' ''no-exif'')"
  by (simp_all add: dropped_def transcodingFails_def encodingFails_def displayBlob_def
      isHeic_samples fileToBase64_def)
    (simp_all add: runtime_defs)

text \<open>
  C4 (as amended).  Ingesting a batch never raises.  It calls the photo setter at most
  once, with the photos of all files that were not dropped, appended behind the photos
  already there; the collection grows by the number of files minus the number of files
  whose conversion or encoding failed.  A file whose metadata cannot be read is not
  dropped on that account: it yields a photo without a location.
\<close>

theorem C4_ingest_growth:
  "\<exists>st' new.
     ingest E rnd files st = Inr st'
     \<and> processFiles E rnd files
         = Inr (if files = [] then []
                else [SetIsConverting True, SetPhotos_append new, SetIsConverting False])
     \<and> photos st' = photos st @ new
     \<and> length new = length files - length (filter (dropped E) files)
     \<and> (\<forall>r file. metadataFails E file \<and> \<not> dropped E file \<longrightarrow>
           (\<exists>p. processFile E r file = Inr (Some p) \<and> location p = None))"
proof -
  let ?new = "validNewPhotos (map (outcome E rnd) (enumerate 0 files))"
  have len: "length ?new = length files - length (filter (dropped E) files)"
    by (simp add: length_valid_outcomes length_kept)
  have empty: "files = [] \<Longrightarrow> ?new = []"
    by (simp add: validNewPhotos_def)
  have meta: "\<exists>p. processFile E r file = Inr (Some p) \<and> location p = None"
    if "metadataFails E file" "\<not> dropped E file" for r "file"
  proof -
    from that(2) obtain p where p: "processFile_try E r file = Inr p"
      using processFile_try_Inl [of E r "file"] by (cases "processFile_try E r file") auto
    from that(1) have "extractGpsData E file = None"
      by (auto simp: metadataFails_def extractGpsData_def split: sum.splits)
    with p have "location p = None"
      by (auto simp: processFile_try_def Let_def split: sum.splits)
    with p show ?thesis by (simp add: processFile_def)
  qed
  show ?thesis
    apply (rule exI [of _ "foldl apply_setter st
             (if files = [] then []
              else [SetIsConverting True, SetPhotos_append ?new, SetIsConverting False])"])
    apply (rule exI [of _ ?new])
    using len empty meta by (simp add: ingest_def processFiles_result)
qed

theorem C4_ingest_growth_witness:
  "metadataFails sampleRuntime (sampleFile ''d.jpg'' ''no-exif'')
   \<and> \<not> dropped sampleRuntime (sampleFile ''d.jpg'' ''no-exif'')
   \<and> (\<exists>st'. ingest sampleRuntime sampleRandom
          [sampleFile ''a.jpg'' ''gps'', sampleFile ''b.HEIC'' ''bad-heic'',
           sampleFile ''c.jpg'' ''unreadable'', sampleFile ''d.jpg'' ''no-exif'']
          initialSession = Inr st'
        \<and> length (photos st') = 2)"
proof -
  have m: "metadataFails sampleRuntime (sampleFile ''d.jpg'' ''no-exif'')"
    by (simp add: metadataFails_def runtime_defs)
  from C4_ingest_growth [of sampleRuntime sampleRandom
      "[sampleFile ''a.jpg'' ''gps'', sampleFile ''b.HEIC'' ''bad-heic'',
        sampleFile ''c.jpg'' ''unreadable'', sampleFile ''d.jpg'' ''no-exif'']" initialSession]
  show ?thesis
    using m by (auto simp: dropped_samples initialSession_def)
qed

text \<open>
  The claim as stated fails: a file that fails metadata extraction is not dropped.  One
  file whose EXIF load throws (N = 1, K = 1) makes the collection grow by 1.
\<close>

theorem C4_metadata_failure_kept:
  "metadataFails sampleRuntime (sampleFile ''d.jpg'' ''no-exif'')
   \<and> map_sum id (\<lambda>st'. length (photos st'))
        (ingest sampleRuntime sampleRandom [sampleFile ''d.jpg'' ''no-exif''] initialSession)
       = Inr 1"
proof -
  have "\<not> dropped sampleRuntime (sampleFile ''d.jpg'' ''no-exif'')"
    by (rule dropped_samples)
  then show ?thesis
    by (simp add: ingest_def processFiles_result outcome_def validNewPhotos_def
        initialSession_def metadataFails_def enumerate_eq_zip)
      (simp add: runtime_defs)
qed

section \<open>C8: the timestamp of a malformed date\<close>

lemma normalizeExifDate_nonempty: "s \<noteq> [] \<Longrightarrow> normalizeExifDate s \<noteq> []"
  by (induction s rule: normalizeExifDate.induct) auto

lemma extract_timestamp:
  assumes "ExifReader_load E f = Inr tags" "GPSLatitude tags = Some la"
    "GPSLongitude tags = Some lo" "DateTimeOriginal tags = Some s" "s \<noteq> []"
  shows "map_option timestamp (extractGpsData E f)
           = Some (Some (newDate E (normalizeExifDate s)))"
  using assms normalizeExifDate_nonempty [of s]
  by (simp add: extractGpsData_def extractDate_def Let_def)

text \<open>
  C8 (the code at the failing input).  The first two colons of an EXIF date become
  hyphens.  For the date \<open>0000:00:00 00:00:00\<close>, which no runtime parses, the location
  that extraction returns has a timestamp: the Invalid Date.
\<close>

theorem C8_malformed_date_kept:
  "normalizeExifDate ''2024:01:01 00:00:00'' = ''2024-01-01 00:00:00''
   \<and> normalizeExifDate ''0000:00:00 00:00:00'' = ''0000-00-00 00:00:00''
   \<and> map_option timestamp (extractGpsData sampleRuntime (sampleFile ''z.jpg'' ''zero-date''))
       = Some (Some InvalidDate)
   \<and> map_option timestamp (extractGpsData sampleRuntime (sampleFile ''a.jpg'' ''gps''))
       = Some (Some (Date 1704067200000))"
proof -
  have n: "normalizeExifDate ''2024:01:01 00:00:00'' = ''2024-01-01 00:00:00''"
    "normalizeExifDate ''0000:00:00 00:00:00'' = ''0000-00-00 00:00:00''"
    by (simp_all add: isDigit_def)
  have "map_option timestamp (extractGpsData sampleRuntime (sampleFile ''z.jpg'' ''zero-date''))
       = Some (Some (newDate sampleRuntime (normalizeExifDate ''0000:00:00 00:00:00'')))"
    by (rule extract_timestamp [where tags = "sampleTags ''zero-date''"
          and la = "10123456 / 1000000" and lo = "20654321 / 1000000"])
      (simp_all add: runtime_defs)
  moreover
  have "map_option timestamp (extractGpsData sampleRuntime (sampleFile ''a.jpg'' ''gps''))
       = Some (Some (newDate sampleRuntime (normalizeExifDate ''2024:01:01 00:00:00'')))"
    by (rule extract_timestamp [where tags = "sampleTags ''gps''"
          and la = "10123456 / 1000000" and lo = "20654321 / 1000000"])
      (simp_all add: runtime_defs)
  ultimately show ?thesis
    unfolding n by (simp add: n runtime_defs)
qed

section \<open>Playback runs\<close>

lemmas playback_defs =
  clickPlay_def run_until.simps due_def setIsPlaying_def runPlayback_def resume_def
  finishPlayback_def Let_def

lemma photos_sampleSession [simp]:
  "photos sampleSession = [photo2024, photoNoGps, photoUndated, photo1969]"
  by (simp add: sampleSession_def)

lemma ids_sample [simp]:
  "id_photo photo1969 = ''o''" "id_photo photoUndated = ''u''" "id_photo photo2024 = ''n''"
  by (simp_all add: sample_defs)

lemma play_uninterrupted:
  "selected (run_until 9000 (clickPlay 0 sampleSession)) = [(0, ''o''), (3000, ''u''), (6000, ''n'')]
   \<and> \<not> isPlaying (run_until 9000 (clickPlay 0 sampleSession))
   \<and> isPlaying (run_until 8999 (clickPlay 0 sampleSession))"
  by (simp add: playback_defs gpsPhotos_sample sampleSession_def initialSession_def)

lemma playback_stopped:
  "selected (run_until 9000 (clickPlay 1000 (clickPlay 0 sampleSession))) = [(0, ''o'')]
   \<and> \<not> isPlaying (clickPlay 1000 (clickPlay 0 sampleSession))
   \<and> timers (run_until 3000 (clickPlay 1000 (clickPlay 0 sampleSession))) = []
   \<and> activePhotoId (run_until 9000 (clickPlay 1000 (clickPlay 0 sampleSession))) = Some ''o''"
  by (simp add: playback_defs gpsPhotos_sample sampleSession_def initialSession_def)

lemma run_until_no_timers:
  "timers st = [] \<Longrightarrow> run_until t st = st\<lparr>clock := max (clock st) t\<rparr>"
  by (subst run_until.simps) (simp add: due_def)

lemma clickPlay_empty_trek:
  assumes "timers st = []" "\<not> isPlaying st" "filter hasLocation (photos st) = []"
  shows "clickPlay t0 st = st\<lparr>clock := max (clock st) t0, isPlaying := True, playbackRef := Some 1\<rparr>"
proof -
  from assms(3) have "gpsPhotos (photos st) = []"
    using length_gpsPhotos [of "photos st"] by simp
  with assms(1,2) show ?thesis
    by (simp add: clickPlay_def run_until_no_timers setIsPlaying_def runPlayback_def Let_def)
qed

text \<open>
  Where playback does what is asked of it.  Started from idle on a trek that is not empty
  and left alone, it selects every waypoint in ascending order, 3000 ms apart, and ends
  idle on the last one.  Stopped during the first dwell and not started again, it is idle
  at once, the loop ends at its dwell boundary without another selection, and the
  selection stays.
\<close>

lemma run_loop:
  assumes "timers s = [(w, rest)]" "playbackRef s = Some r" "isPlaying s"
    "w + 3000 * length rest \<le> T"
  shows "selected (run_until T s)
           = selected s @ map (\<lambda>(k, p). (w + 3000 * k, id_photo p)) (enumerate 0 rest)
         \<and> \<not> isPlaying (run_until T s)
         \<and> timers (run_until T s) = []
         \<and> activePhotoId (run_until T s)
             = (if rest = [] then activePhotoId s else Some (id_photo (last rest)))"
  using assms
proof (induction rest arbitrary: s w)
  case Nil
  then have d: "due T s = Some (w, [])" by (simp add: due_def)
  show ?case
    using Nil
    by (subst (1 2 3 4) run_until.simps)
      (simp add: d resume_def finishPlayback_def run_until_no_timers)
next
  case (Cons p ps)
  then have d: "due T s = Some (w, p # ps)" by (simp add: due_def)
  define s2 where "s2 = s\<lparr>clock := w, timers := [(w + 3000, ps)],
      activePhotoId := Some (id_photo p), selected := selected s @ [(w, id_photo p)]\<rparr>"
  have "resume (p # ps) (s\<lparr>clock := w, timers := remove1 (w, p # ps) (timers s)\<rparr>) = s2"
    using Cons.prems by (simp add: resume_def s2_def)
  then have r: "run_until T s = run_until T s2"
    by (subst run_until.simps) (simp add: d)
  have ih: "selected (run_until T s2)
           = selected s2 @ map (\<lambda>(k, p). (w + 3000 + 3000 * k, id_photo p)) (enumerate 0 ps)
         \<and> \<not> isPlaying (run_until T s2)
         \<and> timers (run_until T s2) = []
         \<and> activePhotoId (run_until T s2)
             = (if ps = [] then activePhotoId s2 else Some (id_photo (last ps)))"
    by (rule Cons.IH) (use Cons.prems in \<open>simp_all add: s2_def\<close>)
  have m: "map (\<lambda>(k, p). (w + 3000 * k, id_photo p)) (enumerate 0 (p # ps))
      = (w, id_photo p) # map (\<lambda>(k, p). (w + 3000 + 3000 * k, id_photo p)) (enumerate 0 ps)"
    by (simp add: enumerate_Suc_eq split_def comp_def)
  have sel2: "selected s2 = selected s @ [(w, id_photo p)]"
    "activePhotoId s2 = Some (id_photo p)"
    by (simp_all add: s2_def)
  show ?case
    unfolding r m using ih by (simp add: sel2)
qed

lemma playback_uninterrupted:
  assumes "timers st = []" "\<not> isPlaying st" "gpsPhotos (photos st) = p # ps"
    "clock st \<le> t0" "t0 + 3000 * length (p # ps) \<le> T"
  shows "selected (run_until T (clickPlay t0 st))
           = selected st
             @ map (\<lambda>(k, q). (t0 + 3000 * k, id_photo q)) (enumerate 0 (gpsPhotos (photos st)))
         \<and> \<not> isPlaying (run_until T (clickPlay t0 st))
         \<and> activePhotoId (run_until T (clickPlay t0 st)) = Some (id_photo (last (p # ps)))"
proof -
  define s2 where "s2 = st\<lparr>clock := t0, isPlaying := True, playbackRef := Some 1,
      activePhotoId := Some (id_photo p), selected := selected st @ [(t0, id_photo p)],
      timers := [(t0 + 3000, ps)]\<rparr>"
  have c: "clickPlay t0 st = s2"
    using assms
    by (simp add: clickPlay_def run_until_no_timers setIsPlaying_def runPlayback_def
        resume_def Let_def max_def s2_def)
  have l: "selected (run_until T s2)
           = selected s2 @ map (\<lambda>(k, p). (t0 + 3000 + 3000 * k, id_photo p)) (enumerate 0 ps)
         \<and> \<not> isPlaying (run_until T s2)
         \<and> timers (run_until T s2) = []
         \<and> activePhotoId (run_until T s2)
             = (if ps = [] then activePhotoId s2 else Some (id_photo (last ps)))"
    by (rule run_loop [where r = 1]) (use assms in \<open>simp_all add: s2_def\<close>)
  have m: "map (\<lambda>(k, p). (t0 + 3000 * k, id_photo p)) (enumerate 0 (p # ps))
      = (t0, id_photo p) # map (\<lambda>(k, p). (t0 + 3000 + 3000 * k, id_photo p)) (enumerate 0 ps)"
    by (simp add: enumerate_Suc_eq split_def comp_def)
  have sel2: "selected s2 = selected st @ [(t0, id_photo p)]"
    "activePhotoId s2 = Some (id_photo p)"
    by (simp_all add: s2_def)
  show ?thesis
    unfolding c assms(3) m using l by (simp add: sel2)
qed

lemma run_loop_cancelled:
  assumes "timers s = [(w, rest)]" "playbackRef s = None" "\<not> isPlaying s" "w \<le> T"
  shows "selected (run_until T s) = selected s
         \<and> activePhotoId (run_until T s) = activePhotoId s
         \<and> \<not> isPlaying (run_until T s)
         \<and> timers (run_until T s) = []"
proof -
  from assms have d: "due T s = Some (w, rest)" by (simp add: due_def)
  have "resume rest (s\<lparr>clock := w, timers := remove1 (w, rest) (timers s)\<rparr>)
      = s\<lparr>clock := w, timers := []\<rparr>"
    using assms by (cases rest) (simp_all add: resume_def finishPlayback_def)
  then have "run_until T s = run_until T (s\<lparr>clock := w, timers := []\<rparr>)"
    by (subst run_until.simps) (simp add: d)
  then show ?thesis
    using assms by (simp add: run_until_no_timers)
qed

lemma playback_stop_in_first_dwell:
  assumes "timers st = []" "\<not> isPlaying st" "gpsPhotos (photos st) = p # ps"
    "clock st \<le> t0" "t0 \<le> t1" "t1 < t0 + 3000" "t0 + 3000 \<le> T"
  shows "selected (run_until T (clickPlay t1 (clickPlay t0 st))) = selected st @ [(t0, id_photo p)]
         \<and> activePhotoId (run_until T (clickPlay t1 (clickPlay t0 st))) = Some (id_photo p)
         \<and> \<not> isPlaying (clickPlay t1 (clickPlay t0 st))
         \<and> timers (run_until T (clickPlay t1 (clickPlay t0 st))) = []"
proof -
  define s2 where "s2 = st\<lparr>clock := t0, isPlaying := True, playbackRef := Some 1,
      activePhotoId := Some (id_photo p), selected := selected st @ [(t0, id_photo p)],
      timers := [(t0 + 3000, ps)]\<rparr>"
  have c: "clickPlay t0 st = s2"
    using assms
    by (simp add: clickPlay_def run_until_no_timers setIsPlaying_def runPlayback_def
        resume_def Let_def max_def s2_def)
  have "due t1 s2 = None" using assms by (simp add: due_def s2_def)
  then have w: "run_until t1 s2 = s2\<lparr>clock := t1\<rparr>"
    using assms by (subst run_until.simps) (simp add: s2_def max_def)
  define s3 where "s3 = s2\<lparr>clock := t1, isPlaying := False, playbackRef := None\<rparr>"
  have ip: "isPlaying s2" by (simp add: s2_def)
  have c2: "clickPlay t1 s2 = s3"
    by (simp add: clickPlay_def w setIsPlaying_def ip s3_def)
  have "selected (run_until T s3) = selected s3
         \<and> activePhotoId (run_until T s3) = activePhotoId s3
         \<and> \<not> isPlaying (run_until T s3)
         \<and> timers (run_until T s3) = []"
    by (rule run_loop_cancelled [where w = "t0 + 3000" and rest = ps])
      (use assms in \<open>simp_all add: s3_def s2_def\<close>)
  then show ?thesis
    unfolding c c2 by (simp add: s3_def s2_def)
qed

section \<open>C6: playback\<close>

text \<open>
  C6 (the code at two failing inputs).  With no geotagged photo, pressing the button sets
  the mode to playing, \<open>runPlayback\<close> returns before its loop, no timer is pending, and the
  mode stays playing for all time.  With three waypoints, pressing the button at 0 ms
  (start), 1000 ms (stop) and 2000 ms (start): the stop is never seen by the first loop,
  which finds the ref set again at its dwell boundary and goes on selecting beside the
  second loop, so that the second waypoint is selected 1000 ms after the first.
\<close>

theorem C6_playback_failures:
  "isPlaying (run_until t (clickPlay 0 initialSession))
   \<and> timers (clickPlay 0 initialSession) = []
   \<and> selected (run_until 20000 (clickPlay 2000 (clickPlay 1000 (clickPlay 0 sampleSession))))
       = [(0, ''o''), (2000, ''o''), (3000, ''u''), (5000, ''u''), (6000, ''n''), (8000, ''n'')]"
proof -
  have e: "clickPlay 0 initialSession
      = initialSession\<lparr>clock := max (clock initialSession) 0, isPlaying := True,
          playbackRef := Some 1\<rparr>"
    by (rule clickPlay_empty_trek) (simp_all add: initialSession_def)
  have "isPlaying (run_until t (clickPlay 0 initialSession))"
    unfolding e by (subst run_until_no_timers) (simp_all add: initialSession_def)
  moreover have "timers (clickPlay 0 initialSession) = []"
    unfolding e by (simp add: initialSession_def)
  moreover have "selected (run_until 20000 (clickPlay 2000 (clickPlay 1000 (clickPlay 0 sampleSession))))
       = [(0, ''o''), (2000, ''o''), (3000, ''u''), (5000, ''u''), (6000, ''n''), (8000, ''n'')]"
    by (simp add: playback_defs gpsPhotos_sample sampleSession_def initialSession_def)
  ultimately show ?thesis by blast
qed

section \<open>C7: clearing the collection\<close>

lemma count_list_distinct: "distinct xs \<Longrightarrow> x \<in> set xs \<Longrightarrow> count_list xs x = 1"
  by (induction xs) (auto simp: count_notin)

text \<open>
  C7 (as amended).  Clearing, once confirmed, empties the collection, sets the selection to
  none, closes the gallery, and revokes the url of each member that has one, in one step:
  when every member has a url it revokes exactly the members' urls, and when these are
  distinct each is revoked exactly once.  It leaves the playback mode as it was, so the
  mode is idle afterwards when it was idle before.  Unconfirmed, it changes nothing.
\<close>

theorem C7_clear_all:
  "photos (handleClearAll True st) = []
   \<and> activePhotoId (handleClearAll True st) = None
   \<and> isGalleryOpen (handleClearAll True st) = False
   \<and> revoked (handleClearAll True st)
       = revoked st @ map url (filter (\<lambda>p. url p \<noteq> []) (photos st))
   \<and> ((\<forall>p \<in> set (photos st). url p \<noteq> []) \<longrightarrow>
         revoked (handleClearAll True st) = revoked st @ map url (photos st))
   \<and> ((\<forall>p \<in> set (photos st). url p \<noteq> []) \<and> distinct (map url (photos st)) \<longrightarrow>
         (\<forall>p \<in> set (photos st).
            count_list (drop (length (revoked st)) (revoked (handleClearAll True st))) (url p) = 1))
   \<and> isPlaying (handleClearAll True st) = isPlaying st
   \<and> (\<not> isPlaying st \<longrightarrow> \<not> isPlaying (handleClearAll True st))
   \<and> handleClearAll False st = st"
proof -
  have all: "filter (\<lambda>p. url p \<noteq> []) (photos st) = photos st"
    if "\<forall>p \<in> set (photos st). url p \<noteq> []"
    using that by (simp add: filter_id_conv)
  have once: "count_list (drop (length (revoked st)) (revoked (handleClearAll True st))) (url p) = 1"
    if "\<forall>p \<in> set (photos st). url p \<noteq> []" "distinct (map url (photos st))"
      "p \<in> set (photos st)" for p
    using that all count_list_distinct [of "map url (photos st)" "url p"]
    by (simp add: handleClearAll_def)
  show ?thesis
    using all once by (simp add: handleClearAll_def)
qed

theorem C7_clear_all_witness:
  "[] \<notin> set (map url (photos sampleSession))
   \<and> distinct (map url (photos sampleSession))
   \<and> \<not> isPlaying sampleSession
   \<and> revoked (handleClearAll True sampleSession)
       = [''blob:n'', ''blob:x'', ''blob:u'', ''blob:o'']
   \<and> count_list (revoked (handleClearAll True sampleSession)) ''blob:u'' = 1
   \<and> photos (handleClearAll True sampleSession) = []
   \<and> activePhotoId (handleClearAll True sampleSession) = None
   \<and> \<not> isPlaying (handleClearAll True sampleSession)"
proof -
  have u: "\<forall>p \<in> set (photos sampleSession). url p \<noteq> []"
    "distinct (map url (photos sampleSession))" "\<not> isPlaying sampleSession"
    "revoked sampleSession = []" "photoUndated \<in> set (photos sampleSession)"
    "map url (photos sampleSession) = [''blob:n'', ''blob:x'', ''blob:u'', ''blob:o'']"
    "url photoUndated = ''blob:u''"
    by (simp_all add: sampleSession_def initialSession_def sample_defs)
  from C7_clear_all [of sampleSession] u show ?thesis
    by (simp del: photos_sampleSession)
qed

text \<open>
  The claim as stated fails: clearing while playback runs leaves the mode at playing, and
  at the next dwell boundary the loop selects a waypoint that is no longer in the
  collection.
\<close>

theorem C7_clear_while_playing:
  "isPlaying (clickPlay 0 sampleSession)
   \<and> isPlaying (handleClearAll True (clickPlay 0 sampleSession))
   \<and> photos (handleClearAll True (clickPlay 0 sampleSession)) = []
   \<and> activePhotoId (handleClearAll True (clickPlay 0 sampleSession)) = None
   \<and> activePhotoId (run_until 3000 (handleClearAll True (clickPlay 0 sampleSession))) = Some ''u''"
  by (simp add: playback_defs handleClearAll_def gpsPhotos_sample sampleSession_def
      initialSession_def)

section \<open>C9: identifiers\<close>

lemma id_of_processed:
  "\<not> dropped E f \<Longrightarrow> id_photo (projr (processFile_try E r f)) = substr 2 9 r"
  using processFile_try_Inl [of E r f]
  by (auto simp: processFile_try_def Let_def split: sum.splits)

lemma ids_valid_outcomes:
  "map id_photo (validNewPhotos (map (outcome E rnd) (enumerate n files)))
     = map (\<lambda>(i, f). substr 2 9 (rnd i)) (filter (\<lambda>(i, f). \<not> dropped E f) (enumerate n files))"
  by (induction files arbitrary: n)
    (auto simp: validNewPhotos_def outcome_def id_of_processed)

lemma photos_ingest:
  "photos (apply_operation st (Ingest E rnd files))
     = photos st @ validNewPhotos (map (outcome E rnd) (enumerate 0 files))"
  by (simp add: ingest_def processFiles_result validNewPhotos_def)

lemma ids_ingest:
  "map id_photo (photos (apply_operation st (Ingest E rnd files)))
     = map id_photo (photos st) @ newIds E rnd files"
  by (simp only: photos_ingest map_append ids_valid_outcomes newIds_def)

lemma photos_remove:
  "photos (apply_operation st (Remove i)) = filter (\<lambda>p. id_photo p \<noteq> i) (photos st)"
  by (simp add: deletePhoto_def Let_def split: option.splits)

lemma photos_clear: "photos (apply_operation st Clear) = []"
  by (simp add: handleClearAll_def)

lemma distinct_ids_step:
  assumes "distinct (map id_photo (photos st))" "freshDraws st (op # ops)"
  shows "distinct (map id_photo (photos (apply_operation st op)))"
proof (cases op)
  case (Ingest E rnd files)
  with assms(2) show ?thesis by (simp only: ids_ingest freshDraws.simps)
next
  case (Remove i)
  with assms(1) show ?thesis by (simp only: photos_remove) (simp add: distinct_map_filter)
next
  case Clear
  then show ?thesis by (simp only: photos_clear) simp
qed

lemma freshDraws_tail: "freshDraws st (op # ops) \<Longrightarrow> freshDraws (apply_operation st op) ops"
  by (cases op) simp_all

lemma distinct_ids_foldl:
  "distinct (map id_photo (photos st)) \<Longrightarrow> freshDraws st ops \<Longrightarrow>
   distinct (map id_photo (photos (foldl apply_operation st ops)))"
proof (induction ops arbitrary: st)
  case Nil
  then show ?case by simp
next
  case (Cons op ops)
  from Cons.prems have "distinct (map id_photo (photos (apply_operation st op)))"
    by (rule distinct_ids_step)
  moreover from Cons.prems(2) have "freshDraws (apply_operation st op) ops"
    by (rule freshDraws_tail)
  ultimately show ?case using Cons.IH by simp
qed

text \<open>
  C9 (as amended).  In every state reached by operations whose batches draw fresh ids, the
  ids of the photos in the collection are pairwise distinct.  No operation changes a member:
  ingestion appends the new photos behind the old ones, with the ids drawn; removal keeps
  the photos with another id, as they are; clearing leaves none.
\<close>

theorem C9_distinct_ids:
  "(freshDraws initialSession ops \<longrightarrow> distinct (map id_photo (photos (run_operations ops))))
   \<and> photos (apply_operation st (Ingest E rnd files))
       = photos st @ validNewPhotos (map (outcome E rnd) (enumerate 0 files))
   \<and> map id_photo (photos (apply_operation st (Ingest E rnd files)))
       = map id_photo (photos st) @ newIds E rnd files
   \<and> photos (apply_operation st (Remove i)) = filter (\<lambda>p. id_photo p \<noteq> i) (photos st)
   \<and> photos (apply_operation st Clear) = []"
proof -
  have "distinct (map id_photo (photos initialSession))"
    by (simp add: initialSession_def)
  then have "freshDraws initialSession ops
      \<longrightarrow> distinct (map id_photo (photos (run_operations ops)))"
    unfolding run_operations_def using distinct_ids_foldl [of initialSession ops] by blast
  then show ?thesis
    using photos_ingest [of st E rnd files] ids_ingest [of st E rnd files]
      photos_remove [of st i] photos_clear [of st]
    by blast
qed

theorem C9_distinct_ids_witness:
  "freshDraws initialSession
     [Ingest sampleRuntime sampleRandom
        [sampleFile ''a.jpg'' ''gps'', sampleFile ''d.jpg'' ''no-exif''],
      Remove ''k4fzyo82m'', Clear]
   \<and> distinct (map id_photo (photos (run_operations
         [Ingest sampleRuntime sampleRandom
            [sampleFile ''a.jpg'' ''gps'', sampleFile ''d.jpg'' ''no-exif''],
          Remove ''k4fzyo82m'', Clear])))
   \<and> map id_photo (photos (apply_operation initialSession
         (Ingest sampleRuntime sampleRandom
            [sampleFile ''a.jpg'' ''gps'', sampleFile ''d.jpg'' ''no-exif''])))
       = [''k4fzyo82m'', ''kk4fzyo82'']"
proof -
  have n: "newIds sampleRuntime sampleRandom
             [sampleFile ''a.jpg'' ''gps'', sampleFile ''d.jpg'' ''no-exif'']
           = [''k4fzyo82m'', ''kk4fzyo82'']"
    by (simp add: newIds_def enumerate_eq_zip dropped_samples substr_def sampleRandom_def)
  have i: "photos initialSession = []" by (simp add: initialSession_def)
  have f: "freshDraws initialSession
     [Ingest sampleRuntime sampleRandom
        [sampleFile ''a.jpg'' ''gps'', sampleFile ''d.jpg'' ''no-exif''],
      Remove ''k4fzyo82m'', Clear]"
    by (simp only: freshDraws.simps n i) simp
  note c9 = C9_distinct_ids [of "[Ingest sampleRuntime sampleRandom
        [sampleFile ''a.jpg'' ''gps'', sampleFile ''d.jpg'' ''no-exif''],
      Remove ''k4fzyo82m'', Clear]" initialSession sampleRuntime sampleRandom
      "[sampleFile ''a.jpg'' ''gps'', sampleFile ''d.jpg'' ''no-exif'']" "''k4fzyo82m''"]
  from c9 f have d: "distinct (map id_photo (photos (run_operations
         [Ingest sampleRuntime sampleRandom
            [sampleFile ''a.jpg'' ''gps'', sampleFile ''d.jpg'' ''no-exif''],
          Remove ''k4fzyo82m'', Clear])))"
    by blast
  from c9 have "map id_photo (photos (apply_operation initialSession
         (Ingest sampleRuntime sampleRandom
            [sampleFile ''a.jpg'' ''gps'', sampleFile ''d.jpg'' ''no-exif''])))
       = map id_photo (photos initialSession)
         @ newIds sampleRuntime sampleRandom
             [sampleFile ''a.jpg'' ''gps'', sampleFile ''d.jpg'' ''no-exif'']"
    by blast
  then have e: "map id_photo (photos (apply_operation initialSession
         (Ingest sampleRuntime sampleRandom
            [sampleFile ''a.jpg'' ''gps'', sampleFile ''d.jpg'' ''no-exif''])))
       = [''k4fzyo82m'', ''kk4fzyo82'']"
    by (simp only: n i list.map append_Nil)
  from f d e show ?thesis by (intro conjI)
qed

text \<open>
  The claim as stated fails: nothing compares a new id with the others.  A batch of two
  files for which \<^verbatim>\<open>Math.random()\<close> returns the same number twice gives both the same id.
\<close>

theorem C9_equal_draws_collide:
  "map id_photo (photos (run_operations
      [Ingest sampleRuntime sameRandom
         [sampleFile ''a.jpg'' ''gps'', sampleFile ''d.jpg'' ''no-exif'']]))
     = [''4fzyo82mv'', ''4fzyo82mv'']"
proof -
  have n: "newIds sampleRuntime sameRandom
             [sampleFile ''a.jpg'' ''gps'', sampleFile ''d.jpg'' ''no-exif'']
           = [''4fzyo82mv'', ''4fzyo82mv'']"
    by (simp add: newIds_def enumerate_eq_zip dropped_samples substr_def sameRandom_def)
  have i: "photos initialSession = []" by (simp add: initialSession_def)
  have "run_operations
      [Ingest sampleRuntime sameRandom
         [sampleFile ''a.jpg'' ''gps'', sampleFile ''d.jpg'' ''no-exif'']]
    = apply_operation initialSession (Ingest sampleRuntime sameRandom
         [sampleFile ''a.jpg'' ''gps'', sampleFile ''d.jpg'' ''no-exif''])"
    by (simp only: run_operations_def foldl.simps)
  then show ?thesis
    by (simp only: ids_ingest n i) simp
qed

section \<open>Export documents\<close>

lemma trkpt_render:
  assumes "location p = Some l" "timestamp l \<noteq> Some InvalidDate"
  shows "trkpt E p = Inr (renderTrackPoint E (trackPointOf p))"
  using assms
  by (auto simp: trkpt_def renderTrackPoint_def trackPointOf_def timeElement_def
      eleElement_def Let_def split: option.splits js_date.splits js_float.splits)

lemma forEach_trkpt_render:
  assumes "list_all hasLocation ps" "validDates ps"
  shows "forEach_trkpt E ps gpx
           = Inr (gpx @ concat (map (renderTrackPoint E \<circ> trackPointOf) ps))"
  using assms
proof (induction ps arbitrary: gpx)
  case Nil
  then show ?case by simp
next
  case (Cons p ps)
  from Cons.prems obtain l where l: "location p = Some l" "timestamp l \<noteq> Some InvalidDate"
    by (auto simp: hasLocation_def validDates_def)
  from Cons.prems have "list_all hasLocation ps" "validDates ps"
    by (simp_all add: validDates_def)
  with Cons.IH show ?case
    by (simp add: trkpt_render [OF l])
qed

lemma validDates_gpsPhotos: "validDates ps \<Longrightarrow> validDates (gpsPhotos ps)"
  by (auto simp: validDates_def list_all_iff set_gpsPhotos)

lemma all_hasLocation_gpsPhotos: "list_all hasLocation (gpsPhotos ps)"
  by (auto simp: list_all_iff set_gpsPhotos)

lemma gpsPhotos_Nil: "(gpsPhotos ps = []) = (filter hasLocation ps = [])"
  using length_gpsPhotos [of ps] by (metis length_0_conv)

lemma exportGPX_none: "filter hasLocation ps = [] \<Longrightarrow> exportGPX E ps = Inr None"
  by (simp add: exportGPX_def filter_sortedPhotos gpsPhotos_Nil)

lemma exportGPX_document:
  assumes "filter hasLocation ps \<noteq> []" "validDates ps"
  shows "exportGPX E ps
          = Inr (Some (gpxHeader E
                       @ concat (map (renderTrackPoint E \<circ> trackPointOf) (gpsPhotos ps))
                       @ gpxFooter))"
  using assms forEach_trkpt_render [OF all_hasLocation_gpsPhotos validDates_gpsPhotos, of ps E]
  by (simp add: exportGPX_def filter_sortedPhotos gpsPhotos_Nil)

lemma forEach_trkpt_error:
  assumes "p \<in> set ps" "location p = Some l" "timestamp l = Some InvalidDate"
  shows "forEach_trkpt E ps gpx = Inl RangeError"
  using assms
proof (induction ps arbitrary: gpx)
  case Nil
  then show ?case by simp
next
  case (Cons q qs)
  show ?case
  proof (cases "trkpt E q")
    case (Inl e)
    then have "e = RangeError"
      by (auto simp: trkpt_def timeElement_def Let_def
          split: option.splits js_date.splits sum.splits)
    with Inl show ?thesis by simp
  next
    case (Inr s)
    with Cons.prems have "p \<noteq> q"
      by (auto simp: trkpt_def timeElement_def Let_def)
    with Cons.prems have "p \<in> set qs" by simp
    from Cons.IH [OF this Cons.prems(2,3)] Inr show ?thesis by simp
  qed
qed

lemma exportGPX_invalid_date:
  assumes "p \<in> set ps" "location p = Some l" "timestamp l = Some InvalidDate"
  shows "exportGPX E ps = Inl RangeError"
proof -
  from assms have m: "p \<in> set (filter hasLocation (sortedPhotos ps))"
    by (simp add: filter_sortedPhotos set_gpsPhotos hasLocation_def)
  then have "filter hasLocation (sortedPhotos ps) \<noteq> []"
    by (metis empty_iff list.set(1))
  with forEach_trkpt_error [OF m assms(2,3)] show ?thesis
    by (simp add: exportGPX_def)
qed

lemma ingested_one:
  assumes "\<not> dropped sampleRuntime f"
  shows "ingested [f] = [projr (processFile_try sampleRuntime (sampleRandom 0) f)]"
proof -
  have "ingested [f]
      = photos initialSession
        @ validNewPhotos (map (outcome sampleRuntime sampleRandom) (enumerate 0 [f]))"
    unfolding ingested_def run_operations_def by (simp only: foldl.simps photos_ingest)
  with assms show ?thesis
    by (simp add: outcome_def validNewPhotos_def initialSession_def)
qed

lemma not_dropped_jpg:
  "b \<noteq> ''unreadable'' \<Longrightarrow> \<not> dropped sampleRuntime (sampleFile ''a.jpg'' b)"
  by (simp add: dropped_def transcodingFails_def encodingFails_def displayBlob_def
      isHeic_samples fileToBase64_def)
    (simp add: runtime_defs)

lemma location_processed:
  "\<not> dropped E f \<Longrightarrow> location (projr (processFile_try E r f)) = extractGpsData E f"
  using processFile_try_Inl [of E r f]
  by (auto simp: processFile_try_def Let_def split: sum.splits)

lemma name_processed:
  "\<not> dropped E f \<Longrightarrow> name (projr (processFile_try E r f)) = file_name f"
  using processFile_try_Inl [of E r f]
  by (auto simp: processFile_try_def Let_def split: sum.splits)

lemma extract_zero_date:
  "extractGpsData sampleRuntime (sampleFile ''a.jpg'' ''zero-date'')
     = Some \<lparr> lat = 10123456 / 1000000, lng = 20654321 / 1000000, alt = Some NotANumber,
              timestamp = Some InvalidDate \<rparr>"
  by (simp add: extractGpsData_def extractAlt_def extractDate_def isDigit_def runtime_defs)

lemma not_dropped_named:
  "\<not> dropped sampleRuntime (sampleFile ''Tom & Jerry.jpg'' ''gps'')"
  by (simp add: dropped_def transcodingFails_def encodingFails_def displayBlob_def
      fileToBase64_def isHeic_def endsWith_def toLowerCase_def toLowerChar_def sampleFile_def
      char_of_def bit_0)
    (simp add: runtime_defs)

lemma extract_named:
  "extractGpsData sampleRuntime (sampleFile ''Tom & Jerry.jpg'' ''gps'')
     = Some \<lparr> lat = 10123456 / 1000000, lng = 20654321 / 1000000, alt = Some NotANumber,
              timestamp = Some (Date 1704067200000) \<rparr>"
  by (simp add: extractGpsData_def extractAlt_def extractDate_def isDigit_def runtime_defs)

lemma escapeAmp_sample: "escapeAmp ''Tom & Jerry.jpg'' = ''Tom &amp; Jerry.jpg''"
  by (simp add: escapeAmp_def)

lemma sampleRuntime_format: "numberToString sampleRuntime (10123456 / 1000000) = ''10.123456''"
  "numberToString sampleRuntime (20654321 / 1000000) = ''20.654321''"
  "toISOString sampleRuntime 1704067200000 = ''2024-01-01T00:00:00.000Z''"
  by (simp_all add: runtime_defs)

section \<open>C5: export\<close>

text \<open>
  C5 (the code at the failing inputs).  A file whose EXIF date is \<open>0000:00:00 00:00:00\<close> is
  ingested as a geotagged photo whose timestamp is the Invalid Date; exporting the
  collection then ends with a RangeError, and no track point and no document come out of
  it.  A file whose altitude tag reads \<open>150 m\<close> is ingested with the altitude NaN; its track
  point carries the latitude, the longitude, the time and the name with \<open>&\<close> replaced by its
  entity, and no elevation element.
\<close>

theorem C5_export_invalid_date:
  "map location (ingested [sampleFile ''a.jpg'' ''zero-date''])
     = [Some \<lparr> lat = 10123456 / 1000000, lng = 20654321 / 1000000, alt = Some NotANumber,
               timestamp = Some InvalidDate \<rparr>]
   \<and> exportGPX sampleRuntime (ingested [sampleFile ''a.jpg'' ''zero-date'']) = Inl RangeError
   \<and> map location (ingested [sampleFile ''Tom & Jerry.jpg'' ''gps''])
       = [Some \<lparr> lat = 10123456 / 1000000, lng = 20654321 / 1000000, alt = Some NotANumber,
                 timestamp = Some (Date 1704067200000) \<rparr>]
   \<and> exportGPX sampleRuntime (ingested [sampleFile ''Tom & Jerry.jpg'' ''gps''])
       = Inr (Some (gpxHeader sampleRuntime
           @ nl @ ''      <trkpt lat='' @ dq @ ''10.123456'' @ dq
           @ '' lon='' @ dq @ ''20.654321'' @ dq @ ''>''
           @ nl @ ''        ''
           @ nl @ ''        <time>2024-01-01T00:00:00.000Z</time>''
           @ nl @ ''        <name>Tom &amp; Jerry.jpg</name>''
           @ nl @ ''      </trkpt>''
           @ gpxFooter))"
proof -
  let ?z = "projr (processFile_try sampleRuntime (sampleRandom 0) (sampleFile ''a.jpg'' ''zero-date''))"
  let ?g = "projr (processFile_try sampleRuntime (sampleRandom 0)
              (sampleFile ''Tom & Jerry.jpg'' ''gps''))"
  have dz: "\<not> dropped sampleRuntime (sampleFile ''a.jpg'' ''zero-date'')"
    by (rule not_dropped_jpg) simp
  have iz: "ingested [sampleFile ''a.jpg'' ''zero-date''] = [?z]"
    by (rule ingested_one [OF dz])
  have lz: "location ?z
      = Some \<lparr> lat = 10123456 / 1000000, lng = 20654321 / 1000000, alt = Some NotANumber,
               timestamp = Some InvalidDate \<rparr>"
    by (simp only: location_processed [OF dz] extract_zero_date)
  have ez: "exportGPX sampleRuntime [?z] = Inl RangeError"
    by (rule exportGPX_invalid_date [OF _ lz]) simp_all
  have ig: "ingested [sampleFile ''Tom & Jerry.jpg'' ''gps''] = [?g]"
    by (rule ingested_one [OF not_dropped_named])
  have lg: "location ?g
      = Some \<lparr> lat = 10123456 / 1000000, lng = 20654321 / 1000000, alt = Some NotANumber,
               timestamp = Some (Date 1704067200000) \<rparr>"
    by (simp only: location_processed [OF not_dropped_named] extract_named)
  have ng: "name ?g = ''Tom & Jerry.jpg''"
    by (simp only: name_processed [OF not_dropped_named]) (simp add: sampleFile_def)
  have t: "trkpt sampleRuntime ?g
      = Inr (nl @ ''      <trkpt lat='' @ dq @ ''10.123456'' @ dq
           @ '' lon='' @ dq @ ''20.654321'' @ dq @ ''>''
           @ nl @ ''        ''
           @ nl @ ''        <time>2024-01-01T00:00:00.000Z</time>''
           @ nl @ ''        <name>Tom &amp; Jerry.jpg</name>''
           @ nl @ ''      </trkpt>'')"
    unfolding trkpt_def lg ng
    by (simp add: timeElement_def eleElement_def escapeAmp_sample
        sampleRuntime_format [simplified])
  have s: "filter hasLocation (sortedPhotos [?g]) = [?g]"
    by (simp add: filter_sortedPhotos gpsPhotos_def array_sort_def hasLocation_def lg)
  have eg: "exportGPX sampleRuntime [?g]
       = Inr (Some (gpxHeader sampleRuntime
           @ nl @ ''      <trkpt lat='' @ dq @ ''10.123456'' @ dq
           @ '' lon='' @ dq @ ''20.654321'' @ dq @ ''>''
           @ nl @ ''        ''
           @ nl @ ''        <time>2024-01-01T00:00:00.000Z</time>''
           @ nl @ ''        <name>Tom &amp; Jerry.jpg</name>''
           @ nl @ ''      </trkpt>''
           @ gpxFooter))"
    unfolding exportGPX_def s by (simp add: t)
  show ?thesis
    unfolding iz ig using lz ez lg eg by (simp only: list.map simp_thms)
qed

section \<open>C10: altitude 0\<close>

lemma timeKey_withoutFalsyAlt [simp]: "timeKey (withoutFalsyAlt p) = timeKey p"
  by (simp add: timeKey_def withoutFalsyAlt_def split: option.splits)

lemma hasLocation_withoutFalsyAlt [simp]: "hasLocation (withoutFalsyAlt p) = hasLocation p"
  by (simp add: hasLocation_def withoutFalsyAlt_def split: option.splits)

lemma insort_key_map_inv:
  assumes "\<And>x. k (f x) = k x"
  shows "insort_key k (f x) (map f ys) = map f (insort_key k x ys)"
  by (induction ys) (simp_all add: assms)

lemma sort_key_map_inv:
  assumes "\<And>x. k (f x) = k x"
  shows "sort_key k (map f xs) = map f (sort_key k xs)"
  by (induction xs) (simp_all add: insort_key_map_inv assms)

lemma trkpt_withoutFalsyAlt: "trkpt E (withoutFalsyAlt p) = trkpt E p"
proof (cases "location p")
  case None
  then show ?thesis by (simp add: withoutFalsyAlt_def)
next
  case (Some l)
  show ?thesis
  proof (cases "alt l = Some (Finite 0) \<or> alt l = Some NotANumber")
    case True
    with Some have w: "withoutFalsyAlt p = p\<lparr>location := Some (l\<lparr>alt := None\<rparr>)\<rparr>"
      by (simp add: withoutFalsyAlt_def)
    show ?thesis
      unfolding w using Some True
      by (auto simp: trkpt_def eleElement_def timeElement_def Let_def
          split: option.splits js_date.splits)
  next
    case False
    with Some show ?thesis by (simp add: withoutFalsyAlt_def)
  qed
qed

lemma forEach_withoutFalsyAlt:
  "forEach_trkpt E (map withoutFalsyAlt ps) gpx = forEach_trkpt E ps gpx"
  by (induction ps arbitrary: gpx) (simp_all add: trkpt_withoutFalsyAlt split: sum.splits)

lemma exportGPX_withoutFalsyAlt: "exportGPX E (map withoutFalsyAlt ps) = exportGPX E ps"
proof -
  have "filter hasLocation (sortedPhotos (map withoutFalsyAlt ps))
      = map withoutFalsyAlt (filter hasLocation (sortedPhotos ps))"
    by (simp add: sortedPhotos_sort_key sort_key_map_inv filter_map comp_def)
  then show ?thesis
    by (simp add: exportGPX_def forEach_withoutFalsyAlt)
qed

text \<open>
  C10 (the code at the failing input).  An altitude tag that reads \<open>0 m\<close> is a non-empty
  text, so truthy, and its conversion to a number is NaN: the location that extraction
  returns, and the photo that ingestion stores, carry the altitude NaN, where a file
  without altitude tag gives a location without altitude.  Only an altitude tag that is
  the number 0 is left out.  In export the altitudes NaN and 0 get no elevation element,
  as no altitude does, and the export of a collection does not change when every altitude
  0 or NaN is removed.
\<close>

theorem C10_zero_altitude_text_kept:
  "GPSAltitude (sampleTags ''sea-level'') = Some (StringValue ''0 m'')
   \<and> truthy (StringValue ''0 m'')
   \<and> toNumber sampleRuntime (StringValue ''0 m'') = NotANumber
   \<and> map_option alt (extractGpsData sampleRuntime (sampleFile ''a.jpg'' ''sea-level''))
       = Some (Some NotANumber)
   \<and> map_option alt (extractGpsData sampleRuntime (sampleFile ''a.jpg'' ''no-altitude''))
       = Some None
   \<and> map_option alt (extractGpsData sampleRuntime (sampleFile ''a.jpg'' ''numeric-zero''))
       = Some None
   \<and> map (map_option alt \<circ> location) (ingested [sampleFile ''a.jpg'' ''sea-level''])
       = [Some (Some NotANumber)]
   \<and> eleElement E \<lparr> lat = la, lng = lo, alt = Some NotANumber, timestamp = t \<rparr> = []
   \<and> eleElement E \<lparr> lat = la, lng = lo, alt = Some (Finite 0), timestamp = t \<rparr> = []
   \<and> eleElement E \<lparr> lat = la, lng = lo, alt = None, timestamp = t \<rparr> = []
   \<and> exportGPX E (map withoutFalsyAlt ps) = exportGPX E ps"
proof -
  have d: "\<not> dropped sampleRuntime (sampleFile ''a.jpg'' ''sea-level'')"
    by (rule not_dropped_jpg) simp
  have x: "map_option alt (extractGpsData sampleRuntime (sampleFile ''a.jpg'' ''sea-level''))
       = Some (Some NotANumber)"
    "map_option alt (extractGpsData sampleRuntime (sampleFile ''a.jpg'' ''no-altitude''))
       = Some None"
    "map_option alt (extractGpsData sampleRuntime (sampleFile ''a.jpg'' ''numeric-zero''))
       = Some None"
    by (simp_all add: extractGpsData_def extractAlt_def runtime_defs)
  have i: "map (map_option alt \<circ> location) (ingested [sampleFile ''a.jpg'' ''sea-level''])
       = [Some (Some NotANumber)]"
    by (simp only: ingested_one [OF d] list.map comp_apply location_processed [OF d] x)
  have v: "GPSAltitude (sampleTags ''sea-level'') = Some (StringValue ''0 m'')"
    "truthy (StringValue ''0 m'')"
    "toNumber sampleRuntime (StringValue ''0 m'') = NotANumber"
    by (simp_all add: runtime_defs)
  have e: "eleElement E \<lparr> lat = la, lng = lo, alt = Some NotANumber, timestamp = t \<rparr> = []"
    "eleElement E \<lparr> lat = la, lng = lo, alt = Some (Finite 0), timestamp = t \<rparr> = []"
    "eleElement E \<lparr> lat = la, lng = lo, alt = None, timestamp = t \<rparr> = []"
    by (simp_all add: eleElement_def)
  show ?thesis
    using v x i e exportGPX_withoutFalsyAlt [of E ps] by (simp only: simp_thms)
qed

end
